theory Spec2Isabelle
  imports Main "HOL-Library.Word" "HOL-Library.AList"
begin

unbundle bit_operations_syntax

section \<open>The navigation-mesh tile cache of MoveMap.cpp\<close>

text \<open>
  A shallow embedding of \<^verbatim>\<open>MMAP::MMapManager\<close> (src/game/MotionGenerators/MoveMap.cpp).
  The manager object is a record that every operation takes and returns. Everything an
  operation obtains from outside the file (the C library's file calls, the Detour
  navigation engine, the constants of MoveMapSharedDefines.h) is read from a record
  \<open>world\<close>; every external call an operation makes is written, in program order, to
  the list of events it returns. Log output (\<^verbatim>\<open>sLog.outError\<close>, \<^verbatim>\<open>DEBUG_FILTER_LOG\<close>)
  and the bookkeeping of the file-name buffers are not modelled.
\<close>

subsection \<open>Machine integers and handles\<close>

type_synonym uint32 = "32 word"
type_synonym int32 = "32 word"   \<comment> \<open>two's complement; \<open>sint\<close> reads the value\<close>
type_synonym uint64 = "64 word"

type_synonym dtTileRef = "64 word"     \<comment> \<open>opaque tile handle of the engine\<close>
type_synonym dtNavMesh = nat           \<comment> \<open>address of an engine mesh; a pointer is an option, \<open>None\<close> is nullptr\<close>
type_synonym dtNavMeshQuery = nat      \<comment> \<open>address of an engine query object\<close>
type_synonym thread_id = nat

subsection \<open>Key packing (MoveMap.cpp lines 181-189)\<close>

text \<open>\<^verbatim>\<open>return uint32(x << 16 | y);\<close> on \<^verbatim>\<open>int32\<close> arguments: the shift binds tighter than
  the bitwise or, and the conversion to \<^verbatim>\<open>uint32\<close> keeps the 32 bits.\<close>

definition packTileID :: "int32 \<Rightarrow> int32 \<Rightarrow> uint32" where
  "packTileID x y = (push_bit 16 x OR y)"

text \<open>\<^verbatim>\<open>return (uint64(mapId) << 32) | instanceId;\<close>\<close>

definition packInstanceId :: "uint32 \<Rightarrow> uint32 \<Rightarrow> uint64" where
  "packInstanceId mapId instanceId = (push_bit 32 (ucast mapId :: uint64) OR ucast instanceId)"

subsection \<open>Data model\<close>

text \<open>
  The three \<^verbatim>\<open>std::unordered_map\<close> containers are association lists. \<open>map_of\<close> is
  \<^verbatim>\<open>find\<close>, \<open>umap_insert\<close> is \<^verbatim>\<open>insert\<close>/\<^verbatim>\<open>emplace\<close> (which leave an existing key alone),
  \<open>AList.delete\<close> is \<^verbatim>\<open>erase(key)\<close>. The managers hold \<^verbatim>\<open>MMapData*\<close>, each pointing to an
  object of its own, and mutate the object through the pointer; the model stores the
  object in the list and writes the changed object back under its key with
  \<open>AList.update\<close>. The order of a list stands for the container's iteration order.
\<close>

definition umap_insert :: "'k \<Rightarrow> 'v \<Rightarrow> ('k \<times> 'v) list \<Rightarrow> ('k \<times> 'v) list" where
  "umap_insert k v xs = (if map_of xs k = None then xs @ [(k, v)] else xs)"

text \<open>\<^verbatim>\<open>struct MMapData\<close> (declared in MoveMap.h; the fields are those the code uses).\<close>

record MMapData =
  navMesh :: "dtNavMesh option"
  navMeshQueries :: "(uint32 \<times> dtNavMeshQuery) list"   \<comment> \<open>instanceId to query\<close>
  mmapLoadedTiles :: "(uint32 \<times> dtTileRef) list"      \<comment> \<open>packed grid position to tile handle\<close>

text \<open>\<^verbatim>\<open>struct MMapGOData\<close>; its mesh pointer is the field \<^verbatim>\<open>navMesh\<close> in the source.\<close>

record MMapGOData =
  navMeshGO :: "dtNavMesh option"
  navMeshGOQueries :: "(thread_id \<times> dtNavMeshQuery) list"

record MMapManager =
  m_loadedMMaps :: "(uint64 \<times> MMapData) list"
  m_loadedTiles :: uint32
  m_loadedModels :: "(uint32 \<times> MMapGOData) list"

text \<open>\<^verbatim>\<open>struct MmapTileHeader\<close> (MoveMapSharedDefines.h): the fields the code reads. The
  field \<^verbatim>\<open>size\<close> is called \<open>size_field\<close> here.\<close>

record MmapTileHeader =
  mmapMagic :: uint32
  mmapVersion :: uint32
  size_field :: uint32

subsection \<open>The outside world\<close>

text \<open>The three kinds of file, named by the numbers their path is formatted from:
  \<^verbatim>\<open>mmaps/%03i.mmap\<close>, \<^verbatim>\<open>mmaps/%03u%02i%02i.mmtile\<close> (with \<^verbatim>\<open>_%02i\<close> and the tile number
  when that is not 0) and \<^verbatim>\<open>mmaps/go%04i.mmtile\<close>.\<close>

datatype file_id =
    MmapFile uint32
  | MmtileFile uint32 int32 int32 uint32
  | GoFile uint32

datatype event =
    Fopen file_id
  | Fread_params                                \<comment> \<open>\<^verbatim>\<open>fread(&params, sizeof(dtNavMeshParams), 1, file)\<close>\<close>
  | Fread_header                                \<comment> \<open>\<^verbatim>\<open>fread(&fileHeader, sizeof(MmapTileHeader), 1, file)\<close>\<close>
  | Fread_data uint32                           \<comment> \<open>\<^verbatim>\<open>fread(data, fileHeader.size, 1, file)\<close>\<close>
  | Fclose
  | DtAlloc uint32                              \<comment> \<open>\<^verbatim>\<open>dtAlloc(fileHeader.size, DT_ALLOC_PERM)\<close>\<close>
  | DtFree
  | DtAllocNavMesh
  | Init_params dtNavMesh                       \<comment> \<open>\<^verbatim>\<open>mesh->init(&params)\<close>\<close>
  | Init_data dtNavMesh uint32                  \<comment> \<open>\<^verbatim>\<open>mesh->init(data, fileHeader.size, DT_TILE_FREE_DATA)\<close>\<close>
  | DtFreeNavMesh dtNavMesh
  | AddTile "dtNavMesh option" uint32           \<comment> \<open>\<^verbatim>\<open>navMesh->addTile(data, fileHeader.size, ...)\<close>\<close>
  | RemoveTile "dtNavMesh option" dtTileRef     \<comment> \<open>\<^verbatim>\<open>navMesh->removeTile(tileRef, nullptr, nullptr)\<close>\<close>
  | DtAllocNavMeshQuery
  | Query_init dtNavMeshQuery "dtNavMesh option" nat   \<comment> \<open>\<^verbatim>\<open>query->init(navMesh, maxNodes)\<close>\<close>
  | DtFreeNavMeshQuery dtNavMeshQuery
  | Delete_MMapData MMapData                    \<comment> \<open>\<^verbatim>\<open>delete mmap\<close>\<close>

text \<open>
  What the outside answers during one call. \<open>file_header\<close> is whatever the unchecked
  \<^verbatim>\<open>fread\<close> left in \<^verbatim>\<open>fileHeader\<close>; \<open>addTile\<close> is \<open>None\<close> when the status is a failure
  and the tile handle otherwise; the allocators return \<open>None\<close> for a null pointer.
  \<open>MMAP_MAGIC\<close> and \<open>MMAP_VERSION\<close> are the constants of MoveMapSharedDefines.h.
\<close>

record world =
  MMAP_MAGIC :: uint32
  MMAP_VERSION :: uint32
  fopen_ok :: "file_id \<Rightarrow> bool"
  file_header :: "file_id \<Rightarrow> MmapTileHeader"
  fread_data_ok :: "file_id \<Rightarrow> uint32 \<Rightarrow> bool"
  dtAlloc_ok :: "uint32 \<Rightarrow> bool"
  dtAllocNavMesh :: "dtNavMesh option"
  navMesh_init_ok :: bool
  addTile :: "dtTileRef option"
  removeTile_ok :: "dtNavMesh option \<Rightarrow> dtTileRef \<Rightarrow> bool"
  dtAllocNavMeshQuery :: "dtNavMeshQuery option"
  query_init_ok :: bool

text \<open>A call either returns a value and the manager it leaves, or the process halts.\<close>

datatype 'a result = Halt | Return 'a MMapManager

text \<open>\<open>calls evs k\<close>: make the external calls \<open>evs\<close>, then go on as \<open>k\<close>.\<close>

definition calls :: "event list \<Rightarrow> event list \<times> 'a result \<Rightarrow> event list \<times> 'a result" where
  "calls evs k = (evs @ fst k, snd k)"

text \<open>Modelled from the spec: the macro \<^verbatim>\<open>MANGOS_ASSERT\<close> (its header, Errors.h, is not
  among the sources). The spec has a failed assertion halt: "the implementation must
  halt rather than continue with inconsistent state -- this mirrors an assertion
  failure in the original design and should be reproduced as a fatal/unreachable
  condition". A true condition lets the program go on.\<close>

definition MANGOS_ASSERT :: "bool \<Rightarrow> event list \<times> 'a result \<Rightarrow> event list \<times> 'a result" where
  "MANGOS_ASSERT c k = (if c then k else ([], Halt))"

subsection \<open>Loading (lines 134-179, 191-289)\<close>

definition loadMapData :: "world \<Rightarrow> MMapManager \<Rightarrow> uint32 \<Rightarrow> uint32 \<Rightarrow> event list \<times> bool result" where
  "loadMapData w s mapId instanceId =
     (if map_of (m_loadedMMaps s) (packInstanceId mapId instanceId) \<noteq> None
      then ([], Return True s)
      else calls [Fopen (MmapFile mapId)]
       (if \<not> fopen_ok w (MmapFile mapId) then ([], Return False s)
        else calls [Fread_params, Fclose, DtAllocNavMesh]
         (MANGOS_ASSERT (dtAllocNavMesh w \<noteq> None)
           (calls [Init_params (the (dtAllocNavMesh w))]
             (if \<not> navMesh_init_ok w
              then ([DtFreeNavMesh (the (dtAllocNavMesh w))], Return False s)
              else ([], Return True
                     (s\<lparr>m_loadedMMaps :=
                          umap_insert (packInstanceId mapId instanceId)
                            \<lparr>navMesh = dtAllocNavMesh w, navMeshQueries = [], mmapLoadedTiles = []\<rparr>
                            (m_loadedMMaps s)\<rparr>)))))))"

definition IsMMapTileLoaded :: "MMapManager \<Rightarrow> uint32 \<Rightarrow> uint32 \<Rightarrow> uint32 \<Rightarrow> uint32 \<Rightarrow> bool" where
  "IsMMapTileLoaded s mapId instanceId x y =
     (case map_of (m_loadedMMaps s) (packInstanceId mapId instanceId) of
        None \<Rightarrow> False
      | Some mmap \<Rightarrow>
          if map_of (mmapLoadedTiles mmap) (packTileID x y) \<noteq> None then True else False)"

text \<open>The part of \<^verbatim>\<open>loadMap\<close> from the duplicate check on (lines 224-288), for the entry
  \<open>mmap\<close> that \<^verbatim>\<open>m_loadedMMaps[packInstanceId(mapId, instanceId)]\<close> points to.\<close>

definition loadMap_tile ::
  "world \<Rightarrow> MMapManager \<Rightarrow> MMapData \<Rightarrow> uint32 \<Rightarrow> uint32 \<Rightarrow> int32 \<Rightarrow> int32 \<Rightarrow> uint32
     \<Rightarrow> event list \<times> bool result" where
  "loadMap_tile w s mmap mapId instanceId x y number =
     (if map_of (mmapLoadedTiles mmap) (packTileID x y) \<noteq> None then ([], Return False s)
      else calls [Fopen (MmtileFile mapId x y number)]
       (if \<not> fopen_ok w (MmtileFile mapId x y number) then ([], Return False s)
        else calls [Fread_header]
         (if mmapMagic (file_header w (MmtileFile mapId x y number)) \<noteq> MMAP_MAGIC w
          then ([Fclose], Return False s)
          else if mmapVersion (file_header w (MmtileFile mapId x y number)) \<noteq> MMAP_VERSION w
          then ([Fclose], Return False s)
          else calls [DtAlloc (size_field (file_header w (MmtileFile mapId x y number)))]
           (MANGOS_ASSERT (dtAlloc_ok w (size_field (file_header w (MmtileFile mapId x y number))))
             (calls [Fread_data (size_field (file_header w (MmtileFile mapId x y number)))]
               (if \<not> fread_data_ok w (MmtileFile mapId x y number)
                       (size_field (file_header w (MmtileFile mapId x y number)))
                then ([Fclose], Return False s)
                else calls [Fclose,
                            AddTile (navMesh mmap)
                              (size_field (file_header w (MmtileFile mapId x y number)))]
                 (case addTile w of
                    None \<Rightarrow> ([DtFree], Return False s)
                  | Some tileRef \<Rightarrow>
                      ([], Return True
                        (s\<lparr>m_loadedMMaps :=
                             AList.update (packInstanceId mapId instanceId)
                               (mmap\<lparr>mmapLoadedTiles :=
                                   umap_insert (packTileID x y) tileRef (mmapLoadedTiles mmap)\<rparr>)
                               (m_loadedMMaps s),
                           m_loadedTiles := m_loadedTiles s + 1\<rparr>)))))))))"

text \<open>\<^verbatim>\<open>loadMap\<close>, lines 208-223. \<^verbatim>\<open>m_loadedMMaps[key]\<close> on a missing key would yield a
  null \<^verbatim>\<open>mmap\<close>, and \<^verbatim>\<open>mmap->navMesh\<close> would then dereference it: that branch is \<open>Halt\<close>
  (it is never taken, see \<open>loadMapData_True_present\<close>).\<close>

definition loadMap ::
  "world \<Rightarrow> MMapManager \<Rightarrow> uint32 \<Rightarrow> uint32 \<Rightarrow> int32 \<Rightarrow> int32 \<Rightarrow> uint32 \<Rightarrow> event list \<times> bool result" where
  "loadMap w s mapId instanceId x y number =
     (case loadMapData w s mapId instanceId of
        (evs, Halt) \<Rightarrow> (evs, Halt)
      | (evs, Return ok s1) \<Rightarrow>
          if \<not> ok then (evs, Return False s1)
          else calls evs
            (case map_of (m_loadedMMaps s1) (packInstanceId mapId instanceId) of
               None \<Rightarrow> ([], Halt)
             | Some mmap \<Rightarrow>
                 MANGOS_ASSERT (navMesh mmap \<noteq> None)
                   (loadMap_tile w s1 mmap mapId instanceId x y number)))"

text \<open>\<^verbatim>\<open>loadGameObject\<close>, lines 297-362.\<close>

definition loadGameObject :: "world \<Rightarrow> MMapManager \<Rightarrow> uint32 \<Rightarrow> event list \<times> bool result" where
  "loadGameObject w s displayId =
     (if map_of (m_loadedModels s) displayId \<noteq> None then ([], Return True s)
      else calls [Fopen (GoFile displayId)]
       (if \<not> fopen_ok w (GoFile displayId) then ([], Return False s)
        else calls [Fread_header]
         (if mmapMagic (file_header w (GoFile displayId)) \<noteq> MMAP_MAGIC w
          then ([Fclose], Return False s)
          else if mmapVersion (file_header w (GoFile displayId)) \<noteq> MMAP_VERSION w
          then ([Fclose], Return False s)
          else calls [DtAlloc (size_field (file_header w (GoFile displayId)))]
           (MANGOS_ASSERT (dtAlloc_ok w (size_field (file_header w (GoFile displayId))))
             (calls [Fread_data (size_field (file_header w (GoFile displayId)))]
               (if \<not> fread_data_ok w (GoFile displayId) (size_field (file_header w (GoFile displayId)))
                then ([Fclose], Return False s)
                else calls [Fclose, DtAllocNavMesh]
                 (MANGOS_ASSERT (dtAllocNavMesh w \<noteq> None)
                   (calls [Init_data (the (dtAllocNavMesh w))
                             (size_field (file_header w (GoFile displayId)))]
                     (if \<not> navMesh_init_ok w
                      then ([DtFreeNavMesh (the (dtAllocNavMesh w))], Return False s)
                      else ([], Return True
                             (s\<lparr>m_loadedModels :=
                                  umap_insert displayId
                                    \<lparr>navMeshGO = dtAllocNavMesh w, navMeshGOQueries = []\<rparr>
                                    (m_loadedModels s)\<rparr>)))))))))))"

text \<open>\<^verbatim>\<open>loadAllGameObjectModels\<close>, lines 291-295; \<open>ws i\<close> is the world of the \<open>i\<close>-th
  iteration. The result of each \<^verbatim>\<open>loadGameObject\<close> is dropped.\<close>

fun loadAllGameObjectModels ::
  "(nat \<Rightarrow> world) \<Rightarrow> MMapManager \<Rightarrow> uint32 list \<Rightarrow> event list \<times> unit result" where
  "loadAllGameObjectModels ws s [] = ([], Return () s)"
| "loadAllGameObjectModels ws s (displayId # displayIds) =
     (case loadGameObject (ws 0) s displayId of
        (evs, Halt) \<Rightarrow> (evs, Halt)
      | (evs, Return ok s1) \<Rightarrow> calls evs (loadAllGameObjectModels (\<lambda>i. ws (Suc i)) s1 displayIds))"

subsection \<open>Unloading (lines 364-475)\<close>

text \<open>\<^verbatim>\<open>unloadMap(uint32 mapId, uint32 instanceId, int32 x, int32 y)\<close>, lines 364-407. The
  \<^verbatim>\<open>return false\<close> of line 406 follows \<^verbatim>\<open>MANGOS_ASSERT(false)\<close>.\<close>

definition unloadMap ::
  "world \<Rightarrow> MMapManager \<Rightarrow> uint32 \<Rightarrow> uint32 \<Rightarrow> int32 \<Rightarrow> int32 \<Rightarrow> event list \<times> bool result" where
  "unloadMap w s mapId instanceId x y =
     (case map_of (m_loadedMMaps s) (packInstanceId mapId instanceId) of
        None \<Rightarrow> ([], Return False s)
      | Some mmap \<Rightarrow>
          (case map_of (mmapLoadedTiles mmap) (packTileID x y) of
             None \<Rightarrow> ([], Return False s)
           | Some tileRef \<Rightarrow>
               calls [RemoveTile (navMesh mmap) tileRef]
                (if \<not> removeTile_ok w (navMesh mmap) tileRef
                 then MANGOS_ASSERT False ([], Return False s)
                 else ([], Return True
                        (s\<lparr>m_loadedMMaps :=
                             AList.update (packInstanceId mapId instanceId)
                               (mmap\<lparr>mmapLoadedTiles :=
                                   AList.delete (packTileID x y) (mmapLoadedTiles mmap)\<rparr>)
                               (m_loadedMMaps s),
                           m_loadedTiles := m_loadedTiles s - 1\<rparr>)))))"

text \<open>The inner loop of \<^verbatim>\<open>unloadMap(uint32 mapId)\<close>, lines 423-435, over the tiles of one
  entry; the second component is \<^verbatim>\<open>m_loadedTiles\<close>.\<close>

fun unloadMap_tiles ::
  "world \<Rightarrow> dtNavMesh option \<Rightarrow> (uint32 \<times> dtTileRef) list \<Rightarrow> uint32 \<Rightarrow> event list \<times> uint32" where
  "unloadMap_tiles w mesh [] n = ([], n)"
| "unloadMap_tiles w mesh ((key, tileRef) # tiles) n =
     (case unloadMap_tiles w mesh tiles (if \<not> removeTile_ok w mesh tileRef then n else n - 1) of
        (evs, n') \<Rightarrow> (RemoveTile mesh tileRef # evs, n'))"

text \<open>The outer loop, lines 413-441, over the entries still to visit. It returns the
  events, the entries that stay, \<^verbatim>\<open>m_loadedTiles\<close> and \<^verbatim>\<open>success\<close>.\<close>

fun unloadMap_entries ::
  "world \<Rightarrow> uint32 \<Rightarrow> (uint64 \<times> MMapData) list \<Rightarrow> uint32 \<Rightarrow> bool
     \<Rightarrow> event list \<times> (uint64 \<times> MMapData) list \<times> uint32 \<times> bool" where
  "unloadMap_entries w mapId [] n success = ([], [], n, success)"
| "unloadMap_entries w mapId ((key, mmap) # entries) n success =
     (if key \<noteq> push_bit 32 (ucast mapId :: uint64)
      then (case unloadMap_entries w mapId entries n success of
              (evs, kept, n', success') \<Rightarrow> (evs, (key, mmap) # kept, n', success'))
      else (case unloadMap_tiles w (navMesh mmap) (mmapLoadedTiles mmap) n of
              (evs1, n1) \<Rightarrow>
                (case unloadMap_entries w mapId entries n1 True of
                   (evs2, kept, n2, success') \<Rightarrow>
                     (evs1 @ [Delete_MMapData mmap] @ evs2, kept, n2, success'))))"

text \<open>\<^verbatim>\<open>unloadMap(uint32 mapId)\<close>, lines 409-448.\<close>

definition unloadMap_mapId :: "world \<Rightarrow> MMapManager \<Rightarrow> uint32 \<Rightarrow> event list \<times> bool result" where
  "unloadMap_mapId w s mapId =
     (case unloadMap_entries w mapId (m_loadedMMaps s) (m_loadedTiles s) False of
        (evs, kept, n, success) \<Rightarrow>
          (evs, Return success (s\<lparr>m_loadedMMaps := kept, m_loadedTiles := n\<rparr>)))"

text \<open>\<^verbatim>\<open>unloadMapInstance\<close>, lines 450-475.\<close>

definition unloadMapInstance ::
  "MMapManager \<Rightarrow> uint32 \<Rightarrow> uint32 \<Rightarrow> event list \<times> bool result" where
  "unloadMapInstance s mapId instanceId =
     (case map_of (m_loadedMMaps s) (packInstanceId mapId instanceId) of
        None \<Rightarrow> ([], Return False s)
      | Some mmap \<Rightarrow>
          (case map_of (navMeshQueries mmap) instanceId of
             None \<Rightarrow> ([], Return False s)
           | Some query \<Rightarrow>
               ([DtFreeNavMeshQuery query], Return True
                 (s\<lparr>m_loadedMMaps :=
                      AList.update (packInstanceId mapId instanceId)
                        (mmap\<lparr>navMeshQueries := AList.delete instanceId (navMeshQueries mmap)\<rparr>)
                        (m_loadedMMaps s)\<rparr>))))"

text \<open>\<^verbatim>\<open>ChangeTile\<close>, lines 128-132: the result of the unload is dropped.\<close>

definition ChangeTile ::
  "world \<Rightarrow> MMapManager \<Rightarrow> uint32 \<Rightarrow> uint32 \<Rightarrow> uint32 \<Rightarrow> uint32 \<Rightarrow> uint32 \<Rightarrow> event list \<times> unit result" where
  "ChangeTile w s mapId instanceId tileX tileY tileNumber =
     (case unloadMap w s mapId instanceId tileX tileY of
        (evs, Halt) \<Rightarrow> (evs, Halt)
      | (evs, Return unloaded s1) \<Rightarrow>
          (case loadMap w s1 mapId instanceId tileX tileY tileNumber of
             (evs', Halt) \<Rightarrow> (evs @ evs', Halt)
           | (evs', Return loaded s2) \<Rightarrow> (evs @ evs', Return () s2)))"

subsection \<open>Meshes and queries (lines 477-551)\<close>

definition GetNavMesh :: "MMapManager \<Rightarrow> uint32 \<Rightarrow> uint32 \<Rightarrow> dtNavMesh option" where
  "GetNavMesh s mapId instanceId =
     (case map_of (m_loadedMMaps s) (packInstanceId mapId instanceId) of
        None \<Rightarrow> None
      | Some mmap \<Rightarrow> navMesh mmap)"

definition GetGONavMesh :: "MMapManager \<Rightarrow> uint32 \<Rightarrow> dtNavMesh option" where
  "GetGONavMesh s mapId =
     (case map_of (m_loadedModels s) mapId of
        None \<Rightarrow> None
      | Some mmap \<Rightarrow> navMeshGO mmap)"

definition GetNavMeshQuery ::
  "world \<Rightarrow> MMapManager \<Rightarrow> uint32 \<Rightarrow> uint32 \<Rightarrow> event list \<times> dtNavMeshQuery option result" where
  "GetNavMeshQuery w s mapId instanceId =
     (case map_of (m_loadedMMaps s) (packInstanceId mapId instanceId) of
        None \<Rightarrow> ([], Return None s)
      | Some mmap \<Rightarrow>
          if map_of (navMeshQueries mmap) instanceId = None
          then calls [DtAllocNavMeshQuery]
            (MANGOS_ASSERT (dtAllocNavMeshQuery w \<noteq> None)
              (calls [Query_init (the (dtAllocNavMeshQuery w)) (navMesh mmap) 1024]
                (if \<not> query_init_ok w
                 then ([DtFreeNavMeshQuery (the (dtAllocNavMeshQuery w))], Return None s)
                 else ([], Return
                        (map_of (umap_insert instanceId (the (dtAllocNavMeshQuery w))
                                   (navMeshQueries mmap)) instanceId)
                        (s\<lparr>m_loadedMMaps :=
                             AList.update (packInstanceId mapId instanceId)
                               (mmap\<lparr>navMeshQueries :=
                                   umap_insert instanceId (the (dtAllocNavMeshQuery w))
                                     (navMeshQueries mmap)\<rparr>)
                               (m_loadedMMaps s)\<rparr>)))))
          else ([], Return (map_of (navMeshQueries mmap) instanceId) s))"

text \<open>\<^verbatim>\<open>GetModelNavMeshQuery\<close>, lines 521-551, run by one thread \<open>threadId\<close> with no other
  thread running: the lock of \<^verbatim>\<open>m_modelsMutex\<close> is then always free and is not modelled;
  the two lookups of the double check are both there.\<close>

definition GetModelNavMeshQuery ::
  "world \<Rightarrow> thread_id \<Rightarrow> MMapManager \<Rightarrow> uint32 \<Rightarrow> event list \<times> dtNavMeshQuery option result" where
  "GetModelNavMeshQuery w threadId s displayId =
     (case map_of (m_loadedModels s) displayId of
        None \<Rightarrow> ([], Return None s)
      | Some mmap \<Rightarrow>
          if map_of (navMeshGOQueries mmap) threadId = None
          then (if map_of (navMeshGOQueries mmap) threadId = None
            then calls [DtAllocNavMeshQuery]
              (MANGOS_ASSERT (dtAllocNavMeshQuery w \<noteq> None)
                (calls [Query_init (the (dtAllocNavMeshQuery w)) (navMeshGO mmap) 2048]
                  (if \<not> query_init_ok w
                   then ([DtFreeNavMeshQuery (the (dtAllocNavMeshQuery w))], Return None s)
                   else ([], Return
                          (map_of (umap_insert threadId (the (dtAllocNavMeshQuery w))
                                     (navMeshGOQueries mmap)) threadId)
                          (s\<lparr>m_loadedModels :=
                               AList.update displayId
                                 (mmap\<lparr>navMeshGOQueries :=
                                     umap_insert threadId (the (dtAllocNavMeshQuery w))
                                       (navMeshGOQueries mmap)\<rparr>)
                                 (m_loadedModels s)\<rparr>)))))
            else ([], Return (map_of (navMeshGOQueries mmap) threadId) s))
          else ([], Return (map_of (navMeshGOQueries mmap) threadId) s))"

subsection \<open>Predicates of the specification\<close>

text \<open>A header that the magic check or the version check turns down.\<close>

definition bad_header :: "world \<Rightarrow> file_id \<Rightarrow> bool" where
  "bad_header w f =
     (mmapMagic (file_header w f) \<noteq> MMAP_MAGIC w \<or> mmapVersion (file_header w f) \<noteq> MMAP_VERSION w)"

text \<open>The world \<open>w\<close> with the size field of the header of file \<open>f\<close> replaced by \<open>z\<close>.\<close>

definition with_size :: "world \<Rightarrow> file_id \<Rightarrow> uint32 \<Rightarrow> world" where
  "with_size w f z = w\<lparr>file_header := (file_header w)(f := (file_header w f)\<lparr>size_field := z\<rparr>)\<rparr>"

text \<open>The number of tile keys over all entries: the tiles the cache holds resident.\<close>

definition tile_total :: "MMapManager \<Rightarrow> nat" where
  "tile_total s = sum_list (map (\<lambda>entry. length (mmapLoadedTiles (snd entry))) (m_loadedMMaps s))"

text \<open>What \<^verbatim>\<open>std::unordered_map\<close> guarantees of the two maps the counter depends on (no key
  twice), and what \<open>loadMapData\<close> guarantees of every entry it stores (a mesh that is
  not null).\<close>

definition well_formed :: "MMapManager \<Rightarrow> bool" where
  "well_formed s =
     (distinct (map fst (m_loadedMMaps s)) \<and>
      list_all (\<lambda>entry. distinct (map fst (mmapLoadedTiles (snd entry))) \<and> navMesh (snd entry) \<noteq> None)
        (m_loadedMMaps s))"

text \<open>The counter \<^verbatim>\<open>m_loadedTiles\<close> is a \<^verbatim>\<open>uint32\<close>: it equals the number of resident
  tiles as a 32-bit number, and so exactly whenever that number is below \<open>2 ^ 32\<close>.\<close>

definition counter_inv :: "MMapManager \<Rightarrow> bool" where
  "counter_inv s = (well_formed s \<and> m_loadedTiles s = of_nat (tile_total s))"

text \<open>The engine reports success on every tile removal.\<close>

definition engine_removes :: "world \<Rightarrow> bool" where
  "engine_removes w = (\<forall>mesh tileRef. removeTile_ok w mesh tileRef)"

text \<open>The operations that can change the manager, as values, and a sequence of calls
  run one after the other, each in the world it meets (\<open>loadAllGameObjectModels\<close> meets
  one world per iteration; the others use the first). A halted call ends the run with
  \<open>None\<close>. \<open>IsMMapTileLoaded\<close>, \<open>GetNavMesh\<close> and \<open>GetGONavMesh\<close> only read.\<close>

datatype call =
    Call_loadMapData uint32 uint32
  | Call_loadMap uint32 uint32 int32 int32 uint32
  | Call_loadGameObject uint32
  | Call_loadAllGameObjectModels "uint32 list"
  | Call_unloadMap uint32 uint32 int32 int32
  | Call_unloadMap_mapId uint32
  | Call_unloadMapInstance uint32 uint32
  | Call_ChangeTile uint32 uint32 uint32 uint32 uint32
  | Call_GetNavMeshQuery uint32 uint32
  | Call_GetModelNavMeshQuery thread_id uint32

fun manager_after :: "event list \<times> 'a result \<Rightarrow> MMapManager option" where
  "manager_after (evs, Halt) = None"
| "manager_after (evs, Return v s) = Some s"

fun perform :: "(nat \<Rightarrow> world) \<Rightarrow> call \<Rightarrow> MMapManager \<Rightarrow> MMapManager option" where
  "perform ws (Call_loadMapData mapId instanceId) s = manager_after (loadMapData (ws 0) s mapId instanceId)"
| "perform ws (Call_loadMap mapId instanceId x y number) s =
     manager_after (loadMap (ws 0) s mapId instanceId x y number)"
| "perform ws (Call_loadGameObject displayId) s = manager_after (loadGameObject (ws 0) s displayId)"
| "perform ws (Call_loadAllGameObjectModels displayIds) s =
     manager_after (loadAllGameObjectModels ws s displayIds)"
| "perform ws (Call_unloadMap mapId instanceId x y) s =
     manager_after (unloadMap (ws 0) s mapId instanceId x y)"
| "perform ws (Call_unloadMap_mapId mapId) s = manager_after (unloadMap_mapId (ws 0) s mapId)"
| "perform ws (Call_unloadMapInstance mapId instanceId) s =
     manager_after (unloadMapInstance s mapId instanceId)"
| "perform ws (Call_ChangeTile mapId instanceId tileX tileY tileNumber) s =
     manager_after (ChangeTile (ws 0) s mapId instanceId tileX tileY tileNumber)"
| "perform ws (Call_GetNavMeshQuery mapId instanceId) s =
     manager_after (GetNavMeshQuery (ws 0) s mapId instanceId)"
| "perform ws (Call_GetModelNavMeshQuery threadId displayId) s =
     manager_after (GetModelNavMeshQuery (ws 0) threadId s displayId)"

fun run :: "((nat \<Rightarrow> world) \<times> call) list \<Rightarrow> MMapManager \<Rightarrow> MMapManager option" where
  "run [] s = Some s"
| "run ((ws, c) # cs) s = (case perform ws c s of None \<Rightarrow> None | Some s1 \<Rightarrow> run cs s1)"

definition engines_remove :: "((nat \<Rightarrow> world) \<times> call) list \<Rightarrow> bool" where
  "engines_remove cs = list_all (\<lambda>c. \<forall>i. engine_removes (fst c i)) cs"

subsection \<open>Concrete worlds and managers\<close>

text \<open>A world in which every file is there with a good header and every call succeeds;
  the same with a header whose magic number is wrong and whose size is huge; the same
  with an engine that refuses to remove tiles.\<close>

definition world_ok :: world where
  "world_ok = \<lparr>MMAP_MAGIC = 0x4D4D4150, MMAP_VERSION = 6, fopen_ok = (\<lambda>f. True),
     file_header = (\<lambda>f. \<lparr>mmapMagic = 0x4D4D4150, mmapVersion = 6, size_field = 64\<rparr>),
     fread_data_ok = (\<lambda>f n. True), dtAlloc_ok = (\<lambda>n. True), dtAllocNavMesh = Some 1,
     navMesh_init_ok = True, addTile = Some 7, removeTile_ok = (\<lambda>mesh tileRef. True),
     dtAllocNavMeshQuery = Some 2, query_init_ok = True\<rparr>"

definition world_bad_magic :: world where
  "world_bad_magic =
     world_ok\<lparr>file_header := (\<lambda>f. \<lparr>mmapMagic = 0, mmapVersion = 6, size_field = 0xFFFFFFFF\<rparr>)\<rparr>"

definition world_no_remove :: world where
  "world_no_remove = world_ok\<lparr>removeTile_ok := (\<lambda>mesh tileRef. False)\<rparr>"

text \<open>A manager with nothing loaded; with tile (30, 30) of map 1, instance 0; the same
  with a query for instance 0; with tile (30, 30) of map 1, instance 5; with the tile
  of map 1, instance 0 whose packed key is \<open>0xFFFFFFFF\<close>.\<close>

definition manager_empty :: MMapManager where
  "manager_empty = \<lparr>m_loadedMMaps = [], m_loadedTiles = 0, m_loadedModels = []\<rparr>"

definition manager_tile :: MMapManager where
  "manager_tile =
     \<lparr>m_loadedMMaps =
        [(0x100000000, \<lparr>navMesh = Some 1, navMeshQueries = [], mmapLoadedTiles = [(0x1E001E, 7)]\<rparr>)],
      m_loadedTiles = 1, m_loadedModels = []\<rparr>"

definition manager_query :: MMapManager where
  "manager_query =
     \<lparr>m_loadedMMaps =
        [(0x100000000, \<lparr>navMesh = Some 1, navMeshQueries = [(0, 2)], mmapLoadedTiles = [(0x1E001E, 7)]\<rparr>)],
      m_loadedTiles = 1, m_loadedModels = []\<rparr>"

definition manager_inst5 :: MMapManager where
  "manager_inst5 =
     \<lparr>m_loadedMMaps =
        [(0x100000005, \<lparr>navMesh = Some 1, navMeshQueries = [], mmapLoadedTiles = [(0x1E001E, 7)]\<rparr>)],
      m_loadedTiles = 1, m_loadedModels = []\<rparr>"

definition manager_edge :: MMapManager where
  "manager_edge =
     \<lparr>m_loadedMMaps =
        [(0x100000000, \<lparr>navMesh = Some 1, navMeshQueries = [], mmapLoadedTiles = [(0xFFFFFFFF, 7)]\<rparr>)],
      m_loadedTiles = 1, m_loadedModels = []\<rparr>"

lemmas op_defs = calls_def MANGOS_ASSERT_def

lemmas scenario_defs =
  world_ok_def world_bad_magic_def world_no_remove_def manager_empty_def manager_tile_def
  manager_query_def manager_inst5_def manager_edge_def packInstanceId_def packTileID_def
  umap_insert_def

section \<open>Key packing\<close>

lemma packInstanceId_high: "ucast (drop_bit 32 (packInstanceId m i)) = m"
  unfolding packInstanceId_def
  by (rule bit_word_eqI) (auto simp: bit_simps dest: bit_imp_le_length)

lemma packInstanceId_low: "ucast (packInstanceId m i) = i"
  unfolding packInstanceId_def
  by (rule bit_word_eqI) (auto simp: bit_simps)

text \<open>A non-negative \<^verbatim>\<open>int32\<close> below \<open>2 ^ 16\<close> has no bit set from position 16 on.\<close>

lemma fits_16_bits:
  fixes x :: int32
  assumes "0 \<le> sint x" "sint x < 2 ^ 16"
  shows "take_bit 16 x = x"
proof -
  have "uint x = take_bit 32 (sint x)"
    using uint_sint [of x] by simp
  also have "\<dots> = sint x"
    using assms by (simp add: take_bit_int_eq_self)
  finally have "uint x < 2 ^ 16"
    using assms by simp
  then have "x < 2 ^ 16"
    by (simp add: word_less_alt)
  then show ?thesis
    using less_mask_eq [of x 16] by (simp add: take_bit_eq_mask)
qed

lemma no_high_bit:
  fixes y :: int32
  assumes "take_bit 16 y = y"
  shows "\<not> bit y (16 + n)"
  by (metis assms bit_take_bit_iff not_add_less1)

lemma only_low_bits:
  fixes y :: int32
  assumes "take_bit 16 y = y" "bit y n"
  shows "n < 16"
  by (metis assms bit_take_bit_iff)

lemma packTileID_high:
  assumes "take_bit 16 x = x" "take_bit 16 y = y"
  shows "drop_bit 16 (packTileID x y) = x"
  unfolding packTileID_def
  by (rule bit_word_eqI)
     (auto simp: bit_simps no_high_bit [OF assms(2)] dest: only_low_bits [OF assms(1)])

lemma packTileID_low:
  assumes "take_bit 16 y = y"
  shows "packTileID x y AND 0xFFFF = y"
proof -
  have m: "(0xFFFF :: uint32) = mask 16"
    by (simp add: mask_eq_exp_minus_1)
  show ?thesis
    unfolding packTileID_def m
    by (rule bit_word_eqI) (auto simp: bit_simps dest: only_low_bits [OF assms])
qed

text \<open>
  Claim C2. Both packings can be undone on the valid ranges. For all 32-bit \<open>m\<close>, \<open>i\<close>
  the map identifier is the high and the instance identifier the low 32 bits of
  \<open>packInstanceId m i\<close>, so the packing is injective. For tile coordinates \<open>x\<close>, \<open>y\<close>
  in \<open>[0, 2^16)\<close> the key shifted right by 16 is \<open>x\<close> and the key masked with
  \<open>0xFFFF\<close> is \<open>y\<close> (the two expressions of lines 425-426), so \<open>packTileID\<close> is
  injective there.
\<close>

theorem packing_bijective:
  "ucast (drop_bit 32 (packInstanceId m i)) = m \<and> ucast (packInstanceId m i) = i \<and>
   (packInstanceId m i = packInstanceId m' i' \<longrightarrow> m = m' \<and> i = i') \<and>
   (0 \<le> sint x \<and> sint x < 2 ^ 16 \<and> 0 \<le> sint y \<and> sint y < 2 ^ 16 \<longrightarrow>
      drop_bit 16 (packTileID x y) = x \<and> packTileID x y AND 0xFFFF = y \<and>
      (0 \<le> sint x' \<and> sint x' < 2 ^ 16 \<and> 0 \<le> sint y' \<and> sint y' < 2 ^ 16 \<and>
       packTileID x y = packTileID x' y' \<longrightarrow> x = x' \<and> y = y'))"
proof (intro conjI impI)
  show "ucast (drop_bit 32 (packInstanceId m i)) = m"
    by (rule packInstanceId_high)
  show "ucast (packInstanceId m i) = i"
    by (rule packInstanceId_low)
next
  assume "packInstanceId m i = packInstanceId m' i'"
  then show "m = m'"
    by (metis packInstanceId_high)
next
  assume "packInstanceId m i = packInstanceId m' i'"
  then show "i = i'"
    by (metis packInstanceId_low)
next
  assume "0 \<le> sint x \<and> sint x < 2 ^ 16 \<and> 0 \<le> sint y \<and> sint y < 2 ^ 16"
  then show "drop_bit 16 (packTileID x y) = x"
    by (simp add: packTileID_high fits_16_bits)
next
  assume "0 \<le> sint x \<and> sint x < 2 ^ 16 \<and> 0 \<le> sint y \<and> sint y < 2 ^ 16"
  then show "packTileID x y AND 0xFFFF = y"
    by (simp add: packTileID_low fits_16_bits)
next
  assume a: "0 \<le> sint x \<and> sint x < 2 ^ 16 \<and> 0 \<le> sint y \<and> sint y < 2 ^ 16"
    and b: "0 \<le> sint x' \<and> sint x' < 2 ^ 16 \<and> 0 \<le> sint y' \<and> sint y' < 2 ^ 16 \<and>
            packTileID x y = packTileID x' y'"
  from a have "drop_bit 16 (packTileID x y) = x"
    by (simp add: packTileID_high fits_16_bits)
  moreover from b have "drop_bit 16 (packTileID x' y') = x'"
    by (simp add: packTileID_high fits_16_bits)
  ultimately show "x = x'"
    using b by simp
next
  assume a: "0 \<le> sint x \<and> sint x < 2 ^ 16 \<and> 0 \<le> sint y \<and> sint y < 2 ^ 16"
    and b: "0 \<le> sint x' \<and> sint x' < 2 ^ 16 \<and> 0 \<le> sint y' \<and> sint y' < 2 ^ 16 \<and>
            packTileID x y = packTileID x' y'"
  from a have "packTileID x y AND 0xFFFF = y"
    by (simp add: packTileID_low fits_16_bits)
  moreover from b have "packTileID x' y' AND 0xFFFF = y'"
    by (simp add: packTileID_low fits_16_bits)
  ultimately show "y = y'"
    using b by simp
qed

theorem packing_bijective_witness:
  "packInstanceId 1 5 = packInstanceId 1 5 \<and>
   0 \<le> sint (30 :: int32) \<and> sint (30 :: int32) < 2 ^ 16 \<and>
   0 \<le> sint (45 :: int32) \<and> sint (45 :: int32) < 2 ^ 16 \<and>
   packTileID 30 45 = packTileID 30 45 \<and>
   ucast (drop_bit 32 (packInstanceId 1 5)) = (1 :: uint32) \<and>
   ucast (packInstanceId 1 5) = (5 :: uint32) \<and>
   drop_bit 16 (packTileID 30 45) = 30 \<and> packTileID 30 45 AND 0xFFFF = 45"
  using packing_bijective [of 1 5 1 5 30 45 30 45] by simp

section \<open>Loading and unloading a tile\<close>

lemma map_of_umap_insert:
  "map_of (umap_insert k v xs) k' = (if k' = k \<and> map_of xs k = None then Some v else map_of xs k')"
  by (auto simp: umap_insert_def map_add_def split: option.splits)

lemma keys_update_present:
  "map_of al k = Some v \<Longrightarrow> map fst (AList.update k v' al) = map fst al"
  by (simp add: update_keys weak_map_of_SomeI image_iff) (metis fst_conv map_of_SomeD image_eqI)

lemma loadMapData_ReturnD:
  assumes "loadMapData w s mapId instanceId = (evs, Return ok s1)"
  shows "(ok \<longrightarrow> map_of (m_loadedMMaps s1) (packInstanceId mapId instanceId) \<noteq> None)"
    and "\<not> ok \<Longrightarrow> s1 = s"
    and "m_loadedTiles s1 = m_loadedTiles s"
    and "m_loadedModels s1 = m_loadedModels s"
  using assms
  by (auto simp: loadMapData_def op_defs map_of_umap_insert split: if_splits)

lemma loadMapData_True_present:
  "loadMapData w s mapId instanceId = (evs, Return True s1) \<Longrightarrow>
   map_of (m_loadedMMaps s1) (packInstanceId mapId instanceId) \<noteq> None"
  using loadMapData_ReturnD(1) [of w s mapId instanceId evs True s1] by simp

lemma loadMap_TrueD:
  assumes "loadMap w s mapId instanceId x y number = (evs, Return True s')"
  shows "\<exists>evs1 s1 mmap tileRef.
           loadMapData w s mapId instanceId = (evs1, Return True s1) \<and>
           map_of (m_loadedMMaps s1) (packInstanceId mapId instanceId) = Some mmap \<and>
           navMesh mmap \<noteq> None \<and>
           map_of (mmapLoadedTiles mmap) (packTileID x y) = None \<and>
           addTile w = Some tileRef \<and>
           s' = s1\<lparr>m_loadedMMaps :=
                     AList.update (packInstanceId mapId instanceId)
                       (mmap\<lparr>mmapLoadedTiles := umap_insert (packTileID x y) tileRef (mmapLoadedTiles mmap)\<rparr>)
                       (m_loadedMMaps s1),
                   m_loadedTiles := m_loadedTiles s1 + 1\<rparr>"
  using assms
  by (auto simp: loadMap_def loadMap_tile_def op_defs
           split: prod.splits result.splits if_splits option.splits)

lemma loadMap_duplicate:
  assumes "map_of (m_loadedMMaps s) (packInstanceId mapId instanceId) = Some mmap"
    and "navMesh mmap \<noteq> None"
    and "map_of (mmapLoadedTiles mmap) (packTileID x y) = Some tileRef"
  shows "loadMap w s mapId instanceId x y number = ([], Return False s)"
  using assms
  by (simp add: loadMap_def loadMapData_def loadMap_tile_def op_defs)

lemma unloadMap_absent:
  assumes "map_of (m_loadedMMaps s) (packInstanceId mapId instanceId) = Some mmap"
    and "map_of (mmapLoadedTiles mmap) (packTileID x y) = None"
  shows "unloadMap w s mapId instanceId x y = ([], Return False s)"
  using assms by (simp add: unloadMap_def)

lemma unloadMap_resident:
  assumes "map_of (m_loadedMMaps s) (packInstanceId mapId instanceId) = Some mmap"
    and "map_of (mmapLoadedTiles mmap) (packTileID x y) = Some tileRef"
    and "removeTile_ok w (navMesh mmap) tileRef"
  shows "unloadMap w s mapId instanceId x y =
           ([RemoveTile (navMesh mmap) tileRef], Return True
              (s\<lparr>m_loadedMMaps :=
                   AList.update (packInstanceId mapId instanceId)
                     (mmap\<lparr>mmapLoadedTiles := AList.delete (packTileID x y) (mmapLoadedTiles mmap)\<rparr>)
                     (m_loadedMMaps s),
                 m_loadedTiles := m_loadedTiles s - 1\<rparr>))"
  using assms by (simp add: unloadMap_def op_defs)

text \<open>
  Claim C4. Whenever \<open>loadMap\<close> returns true for \<open>(mapId, instanceId, x, y)\<close>, the tile
  is resident (\<open>IsMMapTileLoaded\<close>). With an engine that removes the tile, \<open>unloadMap\<close>
  of the same coordinate then returns true and leaves the tile absent: its key is gone
  from the tile set of the entry, \<open>IsMMapTileLoaded\<close> is false and the tile counter is
  back at its value before the load. A second \<open>unloadMap\<close> of the coordinate returns
  false, calls nothing and leaves the manager as it is, whatever the world.
\<close>

theorem load_unload_roundtrip:
  assumes load: "loadMap w s mapId instanceId x y number = (evs, Return True s1)"
    and engine: "\<forall>mesh tileRef. removeTile_ok w2 mesh tileRef"
  shows "IsMMapTileLoaded s1 mapId instanceId x y \<and>
         (\<exists>evs2 s2. unloadMap w2 s1 mapId instanceId x y = (evs2, Return True s2) \<and>
            \<not> IsMMapTileLoaded s2 mapId instanceId x y \<and>
            (\<exists>mmap. map_of (m_loadedMMaps s2) (packInstanceId mapId instanceId) = Some mmap \<and>
                     map_of (mmapLoadedTiles mmap) (packTileID x y) = None) \<and>
            m_loadedTiles s2 = m_loadedTiles s \<and>
            (\<forall>w3. unloadMap w3 s2 mapId instanceId x y = ([], Return False s2)))"
proof -
  from loadMap_TrueD [OF load] obtain evs1 s0 mmap tileRef where
    d: "loadMapData w s mapId instanceId = (evs1, Return True s0)"
    and absent: "map_of (mmapLoadedTiles mmap) (packTileID x y) = None"
    and s1: "s1 = s0\<lparr>m_loadedMMaps :=
                     AList.update (packInstanceId mapId instanceId)
                       (mmap\<lparr>mmapLoadedTiles := umap_insert (packTileID x y) tileRef (mmapLoadedTiles mmap)\<rparr>)
                       (m_loadedMMaps s0),
                   m_loadedTiles := m_loadedTiles s0 + 1\<rparr>"
    by blast
  let ?key = "packInstanceId mapId instanceId"
  let ?m1 = "mmap\<lparr>mmapLoadedTiles := umap_insert (packTileID x y) tileRef (mmapLoadedTiles mmap)\<rparr>"
  have e1: "map_of (m_loadedMMaps s1) ?key = Some ?m1"
    by (simp add: s1 update_conv')
  have t1: "map_of (mmapLoadedTiles ?m1) (packTileID x y) = Some tileRef"
    using absent by (simp add: map_of_umap_insert)
  have loaded: "IsMMapTileLoaded s1 mapId instanceId x y"
    using e1 t1 by (simp add: IsMMapTileLoaded_def)
  let ?m2 = "?m1\<lparr>mmapLoadedTiles := AList.delete (packTileID x y) (mmapLoadedTiles ?m1)\<rparr>"
  let ?s2 = "s1\<lparr>m_loadedMMaps := AList.update ?key ?m2 (m_loadedMMaps s1),
                m_loadedTiles := m_loadedTiles s1 - 1\<rparr>"
  have u: "unloadMap w2 s1 mapId instanceId x y = ([RemoveTile (navMesh ?m1) tileRef], Return True ?s2)"
    using unloadMap_resident [OF e1 t1] engine by simp
  have e2: "map_of (m_loadedMMaps ?s2) ?key = Some ?m2"
    by (simp add: update_conv')
  have t2: "map_of (mmapLoadedTiles ?m2) (packTileID x y) = None"
    by (simp add: delete_conv')
  have n2: "\<not> IsMMapTileLoaded ?s2 mapId instanceId x y"
    using e2 t2 by (simp add: IsMMapTileLoaded_def)
  have c2: "m_loadedTiles ?s2 = m_loadedTiles s"
    using loadMapData_ReturnD(3) [OF d] by (simp add: s1)
  have again: "unloadMap w3 ?s2 mapId instanceId x y = ([], Return False ?s2)" for w3
    by (rule unloadMap_absent [OF e2 t2])
  from loaded u e2 t2 n2 c2 again show ?thesis by blast
qed

theorem load_unload_roundtrip_witness:
  "loadMap world_ok manager_empty 1 0 30 30 0 =
     ([Fopen (MmapFile 1), Fread_params, Fclose, DtAllocNavMesh, Init_params 1,
       Fopen (MmtileFile 1 30 30 0), Fread_header, DtAlloc 64, Fread_data 64, Fclose,
       AddTile (Some 1) 64], Return True manager_tile) \<and>
   (\<forall>mesh tileRef. removeTile_ok world_ok mesh tileRef) \<and>
   IsMMapTileLoaded manager_tile 1 0 30 30 \<and>
   (\<exists>evs2 s2. unloadMap world_ok manager_tile 1 0 30 30 = (evs2, Return True s2) \<and>
      \<not> IsMMapTileLoaded s2 1 0 30 30 \<and>
      m_loadedTiles s2 = m_loadedTiles manager_empty \<and>
      unloadMap world_no_remove s2 1 0 30 30 = ([], Return False s2))"
proof -
  have load: "loadMap world_ok manager_empty 1 0 30 30 0 =
     ([Fopen (MmapFile 1), Fread_params, Fclose, DtAllocNavMesh, Init_params 1,
       Fopen (MmtileFile 1 30 30 0), Fread_header, DtAlloc 64, Fread_data 64, Fclose,
       AddTile (Some 1) 64], Return True manager_tile)"
    by (simp add: loadMap_def loadMapData_def loadMap_tile_def op_defs scenario_defs)
  have engine: "\<forall>mesh tileRef. removeTile_ok world_ok mesh tileRef"
    by (simp add: world_ok_def)
  from load_unload_roundtrip [OF load engine] load engine show ?thesis
    by blast
qed

text \<open>
  Claim C5. \<open>loadMap\<close> of a tile whose packed key is already in the tile set of its
  entry (the entry holding a mesh, as every entry the manager creates does) returns
  false, makes no external call and leaves the whole manager unchanged: the tile sets,
  the stored tile handles and \<open>m_loadedTiles\<close>.
\<close>

theorem loadMap_duplicate_fails:
  assumes "IsMMapTileLoaded s mapId instanceId x y"
    and "GetNavMesh s mapId instanceId \<noteq> None"
  shows "loadMap w s mapId instanceId x y number = ([], Return False s)"
proof -
  from assms obtain mmap tileRef where
    "map_of (m_loadedMMaps s) (packInstanceId mapId instanceId) = Some mmap"
    "navMesh mmap \<noteq> None"
    "map_of (mmapLoadedTiles mmap) (packTileID x y) = Some tileRef"
    by (auto simp: IsMMapTileLoaded_def GetNavMesh_def split: option.splits if_splits)
  then show ?thesis
    by (rule loadMap_duplicate)
qed

theorem loadMap_duplicate_fails_witness:
  "IsMMapTileLoaded manager_tile 1 0 30 30 \<and> GetNavMesh manager_tile 1 0 \<noteq> None \<and>
   loadMap world_ok manager_tile 1 0 30 30 0 = ([], Return False manager_tile)"
proof -
  have a: "IsMMapTileLoaded manager_tile 1 0 30 30"
    by (simp add: IsMMapTileLoaded_def scenario_defs)
  have b: "GetNavMesh manager_tile 1 0 \<noteq> None"
    by (simp add: GetNavMesh_def scenario_defs)
  from loadMap_duplicate_fails [OF a b] a b show ?thesis
    by simp
qed

text \<open>
  Claim C7. The single-tile \<open>unloadMap\<close> halts exactly when the entry exists, the tile
  is resident and the engine's \<^verbatim>\<open>removeTile\<close> reports failure. So it returns (true or
  false) only when the engine removed the tile, or the entry or the tile was absent.
\<close>

theorem unloadMap_engine_failure_halts:
  "(snd (unloadMap w s mapId instanceId x y) = Halt) =
     (\<exists>mmap tileRef.
        map_of (m_loadedMMaps s) (packInstanceId mapId instanceId) = Some mmap \<and>
        map_of (mmapLoadedTiles mmap) (packTileID x y) = Some tileRef \<and>
        \<not> removeTile_ok w (navMesh mmap) tileRef)"
  by (auto simp: unloadMap_def op_defs split: option.splits)

theorem unloadMap_engine_failure_halts_witness:
  "snd (unloadMap world_no_remove manager_tile 1 0 30 30) = Halt \<and>
   snd (unloadMap world_ok manager_tile 1 0 30 30) \<noteq> Halt"
  using unloadMap_engine_failure_halts [of world_no_remove manager_tile 1 0 30 30]
    unloadMap_engine_failure_halts [of world_ok manager_tile 1 0 30 30]
  by (simp add: scenario_defs)

section \<open>Unloading a map instance\<close>

text \<open>
  Claim C8. \<open>unloadMapInstance\<close> always returns. It returns true exactly when the entry
  of the packed key exists and holds a query for the instance; otherwise the manager is
  unchanged and nothing is called. When it returns true the only external call frees
  that query, the query is gone from the entry and every other query stays. In both
  cases \<open>m_loadedTiles\<close>, the static models, the keys of \<open>m_loadedMMaps\<close>, the mesh and
  the tile set of every entry, and every entry of another key are unchanged.
\<close>

theorem unloadMapInstance_frame:
  assumes "unloadMapInstance s mapId instanceId = (evs, r)"
  shows "\<exists>ok s'. r = Return ok s' \<and>
     (ok = (\<exists>mmap query. map_of (m_loadedMMaps s) (packInstanceId mapId instanceId) = Some mmap \<and>
                          map_of (navMeshQueries mmap) instanceId = Some query)) \<and>
     (\<not> ok \<longrightarrow> s' = s \<and> evs = []) \<and>
     (ok \<longrightarrow> (\<exists>mmap query mmap'.
               map_of (m_loadedMMaps s) (packInstanceId mapId instanceId) = Some mmap \<and>
               map_of (navMeshQueries mmap) instanceId = Some query \<and>
               evs = [DtFreeNavMeshQuery query] \<and>
               map_of (m_loadedMMaps s') (packInstanceId mapId instanceId) = Some mmap' \<and>
               map_of (navMeshQueries mmap') instanceId = None \<and>
               (\<forall>j. j \<noteq> instanceId \<longrightarrow>
                    map_of (navMeshQueries mmap') j = map_of (navMeshQueries mmap) j))) \<and>
     m_loadedTiles s' = m_loadedTiles s \<and>
     m_loadedModels s' = m_loadedModels s \<and>
     map fst (m_loadedMMaps s') = map fst (m_loadedMMaps s) \<and>
     (\<forall>k. map_option navMesh (map_of (m_loadedMMaps s') k) =
          map_option navMesh (map_of (m_loadedMMaps s) k)) \<and>
     (\<forall>k. map_option mmapLoadedTiles (map_of (m_loadedMMaps s') k) =
          map_option mmapLoadedTiles (map_of (m_loadedMMaps s) k)) \<and>
     (\<forall>k. k \<noteq> packInstanceId mapId instanceId \<longrightarrow>
          map_of (m_loadedMMaps s') k = map_of (m_loadedMMaps s) k)"
  using assms
  by (auto simp: unloadMapInstance_def update_conv' delete_conv' keys_update_present
           split: option.splits)

theorem unloadMapInstance_frame_witness:
  "unloadMapInstance manager_query 1 0 = ([DtFreeNavMeshQuery 2], Return True manager_tile) \<and>
   m_loadedTiles manager_tile = m_loadedTiles manager_query \<and>
   map fst (m_loadedMMaps manager_tile) = map fst (m_loadedMMaps manager_query) \<and>
   map_option mmapLoadedTiles (map_of (m_loadedMMaps manager_tile) (packInstanceId 1 0)) =
     map_option mmapLoadedTiles (map_of (m_loadedMMaps manager_query) (packInstanceId 1 0))"
proof -
  have call: "unloadMapInstance manager_query 1 0 = ([DtFreeNavMeshQuery 2], Return True manager_tile)"
    by (simp add: unloadMapInstance_def scenario_defs)
  from unloadMapInstance_frame [OF call] call show ?thesis
    by auto
qed

section \<open>Colliding tile keys\<close>

lemma packTileID_minus_one: "packTileID x (- 1) = 0xFFFFFFFF"
  by (simp add: packTileID_def)

text \<open>
  Claim C10. \<open>packTileID\<close> does not mask its arguments: for every \<open>x1\<close> and \<open>x2\<close> the
  key of \<open>(x1, -1)\<close> and of \<open>(x2, -1)\<close> is \<open>0xFFFFFFFF\<close>. The cache cannot tell the two
  tiles apart: \<open>IsMMapTileLoaded\<close> answers the same for both; once \<open>(x1, -1)\<close> is
  loaded, \<open>(x2, -1)\<close> counts as loaded, loading it fails as a duplicate, and unloading
  it asks the engine to remove the tile handle stored for \<open>(x1, -1)\<close>.
\<close>

theorem packTileID_collision:
  "packTileID x1 (- 1) = 0xFFFFFFFF \<and> packTileID x2 (- 1) = 0xFFFFFFFF \<and>
   IsMMapTileLoaded s mapId instanceId x1 (- 1) = IsMMapTileLoaded s mapId instanceId x2 (- 1) \<and>
   (loadMap w s mapId instanceId x1 (- 1) number = (evs, Return True s') \<longrightarrow>
      IsMMapTileLoaded s' mapId instanceId x2 (- 1) \<and>
      loadMap w2 s' mapId instanceId x2 (- 1) number2 = ([], Return False s') \<and>
      (\<exists>evs3 r3. unloadMap w3 s' mapId instanceId x2 (- 1) = (RemoveTile (GetNavMesh s' mapId instanceId) (the (addTile w)) # evs3, r3)))"
proof (intro conjI impI)
  show "packTileID x1 (- 1) = 0xFFFFFFFF" "packTileID x2 (- 1) = 0xFFFFFFFF"
    by (rule packTileID_minus_one)+
  show "IsMMapTileLoaded s mapId instanceId x1 (- 1) = IsMMapTileLoaded s mapId instanceId x2 (- 1)"
    unfolding IsMMapTileLoaded_def packTileID_minus_one by (rule refl)
next
  assume load: "loadMap w s mapId instanceId x1 (- 1) number = (evs, Return True s')"
  from loadMap_TrueD [OF load] obtain s1 mmap tileRef where
    mesh: "navMesh mmap \<noteq> None" and ref: "addTile w = Some tileRef"
    and absent: "map_of (mmapLoadedTiles mmap) (packTileID x1 (- 1)) = None"
    and s': "s' = s1\<lparr>m_loadedMMaps :=
                     AList.update (packInstanceId mapId instanceId)
                       (mmap\<lparr>mmapLoadedTiles := umap_insert (packTileID x1 (- 1)) tileRef (mmapLoadedTiles mmap)\<rparr>)
                       (m_loadedMMaps s1),
                   m_loadedTiles := m_loadedTiles s1 + 1\<rparr>"
    by blast
  let ?m1 = "mmap\<lparr>mmapLoadedTiles := umap_insert (packTileID x1 (- 1)) tileRef (mmapLoadedTiles mmap)\<rparr>"
  have e: "map_of (m_loadedMMaps s') (packInstanceId mapId instanceId) = Some ?m1"
    by (simp add: s' update_conv')
  have t: "map_of (mmapLoadedTiles ?m1) (packTileID x2 (- 1)) = Some tileRef"
    using absent by (simp add: map_of_umap_insert packTileID_minus_one)
  have m: "navMesh ?m1 \<noteq> None" using mesh by simp
  show "IsMMapTileLoaded s' mapId instanceId x2 (- 1)"
    using e t by (simp add: IsMMapTileLoaded_def)
  show "loadMap w2 s' mapId instanceId x2 (- 1) number2 = ([], Return False s')"
    by (rule loadMap_duplicate [OF e m t])
  show "\<exists>evs3 r3. unloadMap w3 s' mapId instanceId x2 (- 1) = (RemoveTile (GetNavMesh s' mapId instanceId) (the (addTile w)) # evs3, r3)"
    using e t ref by (simp add: unloadMap_def GetNavMesh_def op_defs)
qed

theorem packTileID_collision_witness:
  "loadMap world_ok manager_empty 1 0 1 (- 1) 0 =
     ([Fopen (MmapFile 1), Fread_params, Fclose, DtAllocNavMesh, Init_params 1,
       Fopen (MmtileFile 1 1 (- 1) 0), Fread_header, DtAlloc 64, Fread_data 64, Fclose,
       AddTile (Some 1) 64], Return True manager_edge) \<and>
   packTileID 1 (- 1) = packTileID 2 (- 1) \<and>
   IsMMapTileLoaded manager_edge 1 0 2 (- 1) \<and>
   loadMap world_ok manager_edge 1 0 2 (- 1) 0 = ([], Return False manager_edge)"
proof -
  have load: "loadMap world_ok manager_empty 1 0 1 (- 1) 0 =
     ([Fopen (MmapFile 1), Fread_params, Fclose, DtAllocNavMesh, Init_params 1,
       Fopen (MmtileFile 1 1 (- 1) 0), Fread_header, DtAlloc 64, Fread_data 64, Fclose,
       AddTile (Some 1) 64], Return True manager_edge)"
    by (simp add: loadMap_def loadMapData_def loadMap_tile_def op_defs scenario_defs)
  from packTileID_collision [of 1 2 manager_empty 1 0 world_ok 0 _ manager_edge world_ok 0 world_ok] load
  show ?thesis by simp
qed

section \<open>File headers\<close>

lemma loadMapData_events:
  "DtAlloc n \<notin> set (fst (loadMapData w s mapId instanceId)) \<and>
   Fread_data n \<notin> set (fst (loadMapData w s mapId instanceId))"
  by (simp add: loadMapData_def op_defs)

lemma loadMapData_with_size [simp]:
  "loadMapData (with_size w f z) s mapId instanceId = loadMapData w s mapId instanceId"
  by (simp add: loadMapData_def with_size_def)

lemma loadMap_tile_bad_header:
  assumes "bad_header w (MmtileFile mapId x y number)"
  shows "DtAlloc n \<notin> set (fst (loadMap_tile w s mmap mapId instanceId x y number))"
    and "Fread_data n \<notin> set (fst (loadMap_tile w s mmap mapId instanceId x y number))"
    and "snd (loadMap_tile w s mmap mapId instanceId x y number) = Return False s"
    and "loadMap_tile (with_size w (MmtileFile mapId x y number) z) s mmap mapId instanceId x y number
           = loadMap_tile w s mmap mapId instanceId x y number"
  using assms by (auto simp: loadMap_tile_def bad_header_def with_size_def op_defs)

lemma loadMap_bad_header:
  assumes "bad_header w (MmtileFile mapId x y number)"
  shows "DtAlloc n \<notin> set (fst (loadMap w s mapId instanceId x y number))"
    and "Fread_data n \<notin> set (fst (loadMap w s mapId instanceId x y number))"
    and "snd (loadMap w s mapId instanceId x y number) \<noteq> Return True s'"
    and "loadMap (with_size w (MmtileFile mapId x y number) z) s mapId instanceId x y number
           = loadMap w s mapId instanceId x y number"
  using loadMap_tile_bad_header [OF assms] loadMapData_events [of _ w s mapId instanceId]
  by (auto simp: loadMap_def op_defs split: prod.splits result.splits option.splits)

lemma loadGameObject_bad_header:
  assumes "bad_header w (GoFile displayId)"
  shows "DtAlloc n \<notin> set (fst (loadGameObject w s displayId))"
    and "Fread_data n \<notin> set (fst (loadGameObject w s displayId))"
    and "snd (loadGameObject w s displayId) \<noteq> Return True s' \<or> s' = s \<and> map_of (m_loadedModels s) displayId \<noteq> None"
    and "map_of (m_loadedModels s) displayId = None \<Longrightarrow> snd (loadGameObject w s displayId) = Return False s"
    and "loadGameObject (with_size w (GoFile displayId) z) s displayId = loadGameObject w s displayId"
  using assms by (auto simp: loadGameObject_def bad_header_def with_size_def op_defs)

text \<open>
  Claim C6. When the header of the tile file has a magic number or a version other
  than the expected constant, \<open>loadMap\<close> never calls \<^verbatim>\<open>dtAlloc\<close> and never reads the
  payload, it does not return true, and its result and its calls are the same whatever
  the size field holds. The same holds for \<open>loadGameObject\<close> and the header of the
  model file; for a model not loaded yet it returns false and leaves the manager.
\<close>

theorem bad_header_rejected_before_size_is_used:
  "(bad_header w (MmtileFile mapId x y number) \<longrightarrow>
      (\<forall>n. DtAlloc n \<notin> set (fst (loadMap w s mapId instanceId x y number)) \<and>
           Fread_data n \<notin> set (fst (loadMap w s mapId instanceId x y number))) \<and>
      (\<forall>s'. snd (loadMap w s mapId instanceId x y number) \<noteq> Return True s') \<and>
      (\<forall>z. loadMap (with_size w (MmtileFile mapId x y number) z) s mapId instanceId x y number
             = loadMap w s mapId instanceId x y number)) \<and>
   (bad_header w (GoFile displayId) \<longrightarrow>
      (\<forall>n. DtAlloc n \<notin> set (fst (loadGameObject w s displayId)) \<and>
           Fread_data n \<notin> set (fst (loadGameObject w s displayId))) \<and>
      (map_of (m_loadedModels s) displayId = None \<longrightarrow>
         snd (loadGameObject w s displayId) = Return False s) \<and>
      (\<forall>z. loadGameObject (with_size w (GoFile displayId) z) s displayId
             = loadGameObject w s displayId))"
  by (simp add: loadMap_bad_header loadGameObject_bad_header(1,2,4,5))

theorem bad_header_rejected_before_size_is_used_witness:
  "bad_header world_bad_magic (MmtileFile 1 30 30 0) \<and>
   bad_header world_bad_magic (GoFile 7) \<and>
   loadMap world_bad_magic manager_empty 1 0 30 30 0 =
     ([Fopen (MmapFile 1), Fread_params, Fclose, DtAllocNavMesh, Init_params 1,
       Fopen (MmtileFile 1 30 30 0), Fread_header, Fclose],
      Return False
        \<lparr>m_loadedMMaps =
           [(0x100000000, \<lparr>navMesh = Some 1, navMeshQueries = [], mmapLoadedTiles = []\<rparr>)],
         m_loadedTiles = 0, m_loadedModels = []\<rparr>) \<and>
   loadGameObject world_bad_magic manager_empty 7 =
     ([Fopen (GoFile 7), Fread_header, Fclose], Return False manager_empty) \<and>
   DtAlloc 0xFFFFFFFF \<notin> set (fst (loadMap world_bad_magic manager_empty 1 0 30 30 0)) \<and>
   Fread_data 0xFFFFFFFF \<notin> set (fst (loadGameObject world_bad_magic manager_empty 7))"
proof -
  have a: "bad_header world_bad_magic (MmtileFile 1 30 30 0)"
    by (simp add: bad_header_def scenario_defs)
  have b: "bad_header world_bad_magic (GoFile 7)"
    by (simp add: bad_header_def scenario_defs)
  have c: "loadMap world_bad_magic manager_empty 1 0 30 30 0 =
     ([Fopen (MmapFile 1), Fread_params, Fclose, DtAllocNavMesh, Init_params 1,
       Fopen (MmtileFile 1 30 30 0), Fread_header, Fclose],
      Return False
        \<lparr>m_loadedMMaps =
           [(0x100000000, \<lparr>navMesh = Some 1, navMeshQueries = [], mmapLoadedTiles = []\<rparr>)],
         m_loadedTiles = 0, m_loadedModels = []\<rparr>)"
    by (simp add: loadMap_def loadMapData_def loadMap_tile_def op_defs scenario_defs)
  have d: "loadGameObject world_bad_magic manager_empty 7 =
     ([Fopen (GoFile 7), Fread_header, Fclose], Return False manager_empty)"
    by (simp add: loadGameObject_def op_defs scenario_defs)
  from bad_header_rejected_before_size_is_used
         [of world_bad_magic 1 30 30 0 manager_empty 0 7] a b c d
  show ?thesis by blast
qed

section \<open>Unloading a whole map\<close>

text \<open>What \<open>unloadMap_mapId\<close> does in every world and every manager: it returns, true
  exactly when the entry of instance 0 of the map exists; the entries it leaves are
  those of every other key, and the static models stay.\<close>

lemma packInstanceId_zero: "packInstanceId mapId 0 = push_bit 32 (ucast mapId)"
  by (simp add: packInstanceId_def)

lemma unloadMap_entries_kept:
  assumes "unloadMap_entries w mapId entries n success = (evs, kept, n', success')"
  shows "kept = filter (\<lambda>entry. fst entry \<noteq> packInstanceId mapId 0) entries \<and>
         success' = (success \<or> packInstanceId mapId 0 \<in> fst ` set entries)"
  using assms
proof (induction entries arbitrary: n success evs kept n' success')
  case Nil
  then show ?case by simp
next
  case (Cons entry entries)
  obtain key mmap where entry: "entry = (key, mmap)"
    by (cases entry)
  show ?case
  proof (cases "key \<noteq> push_bit 32 (ucast mapId :: uint64)")
    case True
    with Cons.prems entry obtain kept0 where
      rec: "unloadMap_entries w mapId entries n success = (evs, kept0, n', success')"
      and kept: "kept = (key, mmap) # kept0"
      by (auto split: prod.splits)
    from Cons.IH [OF rec] True entry kept show ?thesis
      by (auto simp: packInstanceId_zero)
  next
    case False
    with Cons.prems entry obtain evs1 n1 evs2 where
      rec: "unloadMap_entries w mapId entries n1 True = (evs2, kept, n', success')"
      by (auto split: prod.splits)
    from Cons.IH [OF rec] False entry show ?thesis
      by (auto simp: packInstanceId_zero)
  qed
qed

lemma unloadMap_mapId_only_instance_zero:
  "\<exists>evs ok s'. unloadMap_mapId w s mapId = (evs, Return ok s') \<and>
     ok = (map_of (m_loadedMMaps s) (packInstanceId mapId 0) \<noteq> None) \<and>
     m_loadedMMaps s' = filter (\<lambda>entry. fst entry \<noteq> packInstanceId mapId 0) (m_loadedMMaps s) \<and>
     m_loadedModels s' = m_loadedModels s"
proof -
  obtain evs kept n ok where
    loop: "unloadMap_entries w mapId (m_loadedMMaps s) (m_loadedTiles s) False = (evs, kept, n, ok)"
    by (cases "unloadMap_entries w mapId (m_loadedMMaps s) (m_loadedTiles s) False")
  from unloadMap_entries_kept [OF loop]
  have "kept = filter (\<lambda>entry. fst entry \<noteq> packInstanceId mapId 0) (m_loadedMMaps s)"
    and "ok = (map_of (m_loadedMMaps s) (packInstanceId mapId 0) \<noteq> None)"
    by (simp_all add: map_of_eq_None_iff)
  with loop show ?thesis
    by (simp add: unloadMap_mapId_def)
qed

text \<open>
  Claim C1, at a concrete input. After \<open>loadMap\<close> of tile (30, 30) for map 1,
  instance 5, the manager holds an entry whose packed key has map portion 1. Yet
  \<open>unloadMap_mapId\<close> for map 1 removes nothing, calls nothing and returns false: line
  415 compares the whole key with \<^verbatim>\<open>uint64(mapId) << 32\<close>, which only the key of
  instance 0 equals.
\<close>

theorem unloadMap_mapId_skips_other_instances:
  "snd (loadMap world_ok manager_empty 1 5 30 30 0) = Return True manager_inst5 \<and>
   map_of (m_loadedMMaps manager_inst5) (packInstanceId 1 5) =
     Some \<lparr>navMesh = Some 1, navMeshQueries = [], mmapLoadedTiles = [(packTileID 30 30, 7)]\<rparr> \<and>
   ucast (drop_bit 32 (packInstanceId 1 5)) = (1 :: uint32) \<and>
   unloadMap_mapId world_ok manager_inst5 1 = ([], Return False manager_inst5)"
  by (simp add: loadMap_def loadMapData_def loadMap_tile_def unloadMap_mapId_def
        op_defs scenario_defs)

section \<open>The loaded-tile counter\<close>

lemma sum_list_update:
  fixes f :: "'k \<times> 'v \<Rightarrow> nat"
  assumes "distinct (map fst al)" "map_of al k = Some v"
  shows "sum_list (map f (AList.update k v' al)) + f (k, v) = sum_list (map f al) + f (k, v')"
  using assms by (induction al) (auto split: if_splits)

lemma list_all_update:
  "list_all P al \<Longrightarrow> P (k, v') \<Longrightarrow> list_all P (AList.update k v' al)"
  by (induction al) auto

lemma list_all_map_of:
  "list_all P al \<Longrightarrow> map_of al k = Some v \<Longrightarrow> P (k, v)"
  by (induction al) (auto split: if_splits)

lemma length_delete_present:
  assumes "distinct (map fst al)" "map_of al k = Some v"
  shows "Suc (length (AList.delete k al)) = length al"
  using assms
proof (induction al)
  case Nil
  then show ?case by simp
next
  case (Cons a al)
  show ?case
  proof (cases "fst a = k")
    case True
    with Cons.prems have "k \<notin> fst ` set al" by auto
    then have "AList.delete k al = al" by simp
    with True show ?thesis by simp
  next
    case False
    with Cons show ?thesis by auto
  qed
qed

lemma umap_insert_absent:
  assumes "map_of al k = None"
  shows "length (umap_insert k v al) = Suc (length al)"
    and "distinct (map fst al) \<Longrightarrow> distinct (map fst (umap_insert k v al))"
  using assms by (auto simp: umap_insert_def map_of_eq_None_iff)

lemma counter_inv_same:
  "m_loadedMMaps s' = m_loadedMMaps s \<Longrightarrow> m_loadedTiles s' = m_loadedTiles s \<Longrightarrow>
   counter_inv s' = counter_inv s"
  by (simp add: counter_inv_def well_formed_def tile_total_def)

lemma counter_inv_update:
  assumes inv: "counter_inv s"
    and e: "map_of (m_loadedMMaps s) key = Some mmap"
    and d: "distinct (map fst (mmapLoadedTiles mmap'))"
    and m: "navMesh mmap' = navMesh mmap"
    and n: "n + of_nat (length (mmapLoadedTiles mmap)) = m_loadedTiles s + of_nat (length (mmapLoadedTiles mmap'))"
  shows "counter_inv (s\<lparr>m_loadedMMaps := AList.update key mmap' (m_loadedMMaps s), m_loadedTiles := n\<rparr>)"
proof -
  let ?f = "\<lambda>entry :: uint64 \<times> MMapData. length (mmapLoadedTiles (snd entry))"
  from inv have dist: "distinct (map fst (m_loadedMMaps s))"
    and all: "list_all (\<lambda>entry. distinct (map fst (mmapLoadedTiles (snd entry))) \<and> navMesh (snd entry) \<noteq> None)
        (m_loadedMMaps s)"
    and cnt: "m_loadedTiles s = of_nat (tile_total s)"
    by (simp_all add: counter_inv_def well_formed_def)
  from list_all_map_of [OF all e] have "navMesh mmap \<noteq> None" by simp
  with d m all have all': "list_all (\<lambda>entry. distinct (map fst (mmapLoadedTiles (snd entry))) \<and> navMesh (snd entry) \<noteq> None)
        (AList.update key mmap' (m_loadedMMaps s))"
    by (intro list_all_update) simp_all
  have dist': "distinct (map fst (AList.update key mmap' (m_loadedMMaps s)))"
    using dist by (rule distinct_update)
  from sum_list_update [OF dist e, of ?f mmap']
  have "sum_list (map ?f (AList.update key mmap' (m_loadedMMaps s))) + length (mmapLoadedTiles mmap)
        = tile_total s + length (mmapLoadedTiles mmap')"
    by (simp add: tile_total_def)
  then have "(of_nat (sum_list (map ?f (AList.update key mmap' (m_loadedMMaps s)))
                  + length (mmapLoadedTiles mmap)) :: uint32)
        = of_nat (tile_total s + length (mmapLoadedTiles mmap'))"
    by (rule arg_cong)
  then have "(of_nat (sum_list (map ?f (AList.update key mmap' (m_loadedMMaps s)))) :: uint32)
        + of_nat (length (mmapLoadedTiles mmap)) = of_nat (tile_total s) + of_nat (length (mmapLoadedTiles mmap'))"
    by simp
  with n cnt have "n + of_nat (length (mmapLoadedTiles mmap))
        = of_nat (sum_list (map ?f (AList.update key mmap' (m_loadedMMaps s))))
          + of_nat (length (mmapLoadedTiles mmap))"
    by simp
  then have "n = of_nat (sum_list (map ?f (AList.update key mmap' (m_loadedMMaps s))))"
    by (simp only: add_right_cancel)
  with all' dist' show ?thesis
    by (simp add: counter_inv_def well_formed_def tile_total_def)
qed


lemma loadMapData_inv:
  assumes "counter_inv s" "loadMapData w s mapId instanceId = (evs, Return ok s')"
  shows "counter_inv s'"
  using assms
  by (auto simp: loadMapData_def op_defs counter_inv_def well_formed_def tile_total_def
        umap_insert_def map_of_eq_None_iff split: if_splits)

lemma loadMap_FalseD:
  "loadMap w s mapId instanceId x y number = (evs, Return False s') \<Longrightarrow>
   \<exists>evs1 ok1. loadMapData w s mapId instanceId = (evs1, Return ok1 s')"
  by (auto simp: loadMap_def loadMap_tile_def op_defs
        split: prod.splits result.splits if_splits option.splits)

lemma well_formed_entry:
  assumes "counter_inv s" "map_of (m_loadedMMaps s) key = Some mmap"
  shows "distinct (map fst (mmapLoadedTiles mmap))"
  using assms list_all_map_of [of _ "m_loadedMMaps s" key mmap]
  by (fastforce simp: counter_inv_def well_formed_def)

lemma loadMap_inv:
  assumes inv: "counter_inv s"
    and call: "loadMap w s mapId instanceId x y number = (evs, Return ok s')"
  shows "counter_inv s'"
proof (cases ok)
  case True
  with call have "loadMap w s mapId instanceId x y number = (evs, Return True s')"
    by simp
  from loadMap_TrueD [OF this]
  obtain evs1 s1 mmap tileRef where
    d: "loadMapData w s mapId instanceId = (evs1, Return True s1)"
    and e: "map_of (m_loadedMMaps s1) (packInstanceId mapId instanceId) = Some mmap"
    and absent: "map_of (mmapLoadedTiles mmap) (packTileID x y) = None"
    and s': "s' = s1\<lparr>m_loadedMMaps :=
                     AList.update (packInstanceId mapId instanceId)
                       (mmap\<lparr>mmapLoadedTiles := umap_insert (packTileID x y) tileRef (mmapLoadedTiles mmap)\<rparr>)
                       (m_loadedMMaps s1),
                   m_loadedTiles := m_loadedTiles s1 + 1\<rparr>"
    by blast
  have inv1: "counter_inv s1"
    by (rule loadMapData_inv [OF inv d])
  show ?thesis
    unfolding s'
    by (rule counter_inv_update [OF inv1 e])
       (simp_all add: umap_insert_absent [OF absent] well_formed_entry [OF inv1 e])
next
  case False
  with call have "loadMap w s mapId instanceId x y number = (evs, Return False s')"
    by simp
  from loadMap_FalseD [OF this]
  obtain evs1 ok1 where "loadMapData w s mapId instanceId = (evs1, Return ok1 s')"
    by blast
  then show ?thesis
    by (rule loadMapData_inv [OF inv])
qed

lemma unloadMap_ReturnD:
  assumes "unloadMap w s mapId instanceId x y = (evs, Return ok s')"
  shows "s' = s \<or>
     (\<exists>mmap tileRef.
        map_of (m_loadedMMaps s) (packInstanceId mapId instanceId) = Some mmap \<and>
        map_of (mmapLoadedTiles mmap) (packTileID x y) = Some tileRef \<and>
        s' = s\<lparr>m_loadedMMaps :=
                  AList.update (packInstanceId mapId instanceId)
                    (mmap\<lparr>mmapLoadedTiles := AList.delete (packTileID x y) (mmapLoadedTiles mmap)\<rparr>)
                    (m_loadedMMaps s),
                m_loadedTiles := m_loadedTiles s - 1\<rparr>)"
  using assms by (auto simp: unloadMap_def op_defs split: option.splits if_splits)

lemma unloadMap_inv:
  assumes inv: "counter_inv s"
    and call: "unloadMap w s mapId instanceId x y = (evs, Return ok s')"
  shows "counter_inv s'"
  using unloadMap_ReturnD [OF call]
proof (elim disjE exE conjE)
  assume "s' = s"
  with inv show ?thesis by simp
next
  fix mmap tileRef
  assume e: "map_of (m_loadedMMaps s) (packInstanceId mapId instanceId) = Some mmap"
    and t: "map_of (mmapLoadedTiles mmap) (packTileID x y) = Some tileRef"
    and s': "s' = s\<lparr>m_loadedMMaps :=
                  AList.update (packInstanceId mapId instanceId)
                    (mmap\<lparr>mmapLoadedTiles := AList.delete (packTileID x y) (mmapLoadedTiles mmap)\<rparr>)
                    (m_loadedMMaps s),
                m_loadedTiles := m_loadedTiles s - 1\<rparr>"
  have d: "distinct (map fst (mmapLoadedTiles mmap))"
    by (rule well_formed_entry [OF inv e])
  have "length (mmapLoadedTiles mmap) = Suc (length (AList.delete (packTileID x y) (mmapLoadedTiles mmap)))"
    using length_delete_present [OF d t] by simp
  then have n: "m_loadedTiles s - 1 + of_nat (length (mmapLoadedTiles mmap))
      = m_loadedTiles s + of_nat (length (AList.delete (packTileID x y) (mmapLoadedTiles mmap)))"
    by simp
  show ?thesis
    unfolding s'
    by (rule counter_inv_update [OF inv e]) (simp_all add: distinct_delete d n)
qed

lemma unloadMap_tiles_count:
  assumes "engine_removes w" "unloadMap_tiles w mesh tiles n = (evs, n')"
  shows "n' + of_nat (length tiles) = n"
  using assms(2)
proof (induction tiles arbitrary: n evs)
  case Nil
  then show ?case by simp
next
  case (Cons tile tiles)
  obtain key tileRef where tile: "tile = (key, tileRef)"
    by (cases tile)
  from assms(1) have "removeTile_ok w mesh tileRef"
    by (simp add: engine_removes_def)
  with Cons.prems tile obtain evs0 where
    "unloadMap_tiles w mesh tiles (n - 1) = (evs0, n')"
    by (auto split: prod.splits)
  from Cons.IH [OF this] have "n' + of_nat (length tiles) = n - 1" .
  then have "n' + of_nat (length tiles) + 1 = n"
    by simp
  then show ?case
    by (simp add: ac_simps)
qed

lemma unloadMap_entries_count:
  assumes "engine_removes w"
    and "unloadMap_entries w mapId entries n success = (evs, kept, n', success')"
  shows "kept = filter (\<lambda>entry. fst entry \<noteq> push_bit 32 (ucast mapId)) entries \<and>
         n' + of_nat (sum_list (map (\<lambda>entry. length (mmapLoadedTiles (snd entry))) entries))
           = n + of_nat (sum_list (map (\<lambda>entry. length (mmapLoadedTiles (snd entry))) kept))"
  using assms(2)
proof (induction entries arbitrary: n success evs kept n' success')
  case Nil
  then show ?case by simp
next
  case (Cons entry entries)
  obtain key mmap where entry: "entry = (key, mmap)"
    by (cases entry)
  show ?case
  proof (cases "key \<noteq> push_bit 32 (ucast mapId :: uint64)")
    case True
    with Cons.prems entry obtain kept0 where
      rec: "unloadMap_entries w mapId entries n success = (evs, kept0, n', success')"
      and kept: "kept = (key, mmap) # kept0"
      by (auto split: prod.splits)
    from Cons.IH [OF rec] True entry kept show ?thesis
      by (simp add: algebra_simps)
  next
    case False
    with Cons.prems entry obtain evs1 n1 evs2 where
      tiles: "unloadMap_tiles w (navMesh mmap) (mmapLoadedTiles mmap) n = (evs1, n1)"
      and rec: "unloadMap_entries w mapId entries n1 True = (evs2, kept, n', success')"
      by (auto split: prod.splits)
    from unloadMap_tiles_count [OF assms(1) tiles]
    have "n1 + of_nat (length (mmapLoadedTiles mmap)) = n" .
    with Cons.IH [OF rec] False entry show ?thesis
      by (auto simp: algebra_simps)
  qed
qed

lemma unloadMap_mapId_inv:
  assumes inv: "counter_inv s"
    and engine: "engine_removes w"
    and call: "unloadMap_mapId w s mapId = (evs, Return ok s')"
  shows "counter_inv s'"
proof -
  let ?f = "\<lambda>entry :: uint64 \<times> MMapData. length (mmapLoadedTiles (snd entry))"
  from call obtain kept n where
    loop: "unloadMap_entries w mapId (m_loadedMMaps s) (m_loadedTiles s) False = (evs, kept, n, ok)"
    and s': "s' = s\<lparr>m_loadedMMaps := kept, m_loadedTiles := n\<rparr>"
    by (auto simp: unloadMap_mapId_def split: prod.splits)
  from unloadMap_entries_count [OF engine loop]
  have kept: "kept = filter (\<lambda>entry. fst entry \<noteq> push_bit 32 (ucast mapId)) (m_loadedMMaps s)"
    and cnt: "n + of_nat (sum_list (map ?f (m_loadedMMaps s)))
                = m_loadedTiles s + of_nat (sum_list (map ?f kept))"
    by simp_all
  from inv have "m_loadedTiles s = of_nat (sum_list (map ?f (m_loadedMMaps s)))"
    by (simp add: counter_inv_def tile_total_def)
  with cnt have "n + of_nat (sum_list (map ?f (m_loadedMMaps s)))
      = of_nat (sum_list (map ?f kept)) + of_nat (sum_list (map ?f (m_loadedMMaps s)))"
    by (simp add: add.commute)
  then have n: "n = of_nat (sum_list (map ?f kept))"
    by (simp only: add_right_cancel)
  from inv have "well_formed (s\<lparr>m_loadedMMaps := kept, m_loadedTiles := n\<rparr>)"
    by (auto simp: counter_inv_def well_formed_def kept distinct_map_filter list_all_iff)
  with n show ?thesis
    by (simp add: s' counter_inv_def tile_total_def)
qed


lemma snd_calls [simp]: "snd (calls evs k) = snd k"
  by (simp add: calls_def)

lemma snd_MANGOS_ASSERT: "snd (MANGOS_ASSERT c k) = (if c then snd k else Halt)"
  by (simp add: MANGOS_ASSERT_def)

lemma counter_inv_queries:
  assumes inv: "counter_inv s"
    and e: "map_of (m_loadedMMaps s) key = Some mmap"
  shows "counter_inv (s\<lparr>m_loadedMMaps := AList.update key (mmap\<lparr>navMeshQueries := qs\<rparr>) (m_loadedMMaps s)\<rparr>)"
proof -
  have "counter_inv (s\<lparr>m_loadedMMaps := AList.update key (mmap\<lparr>navMeshQueries := qs\<rparr>) (m_loadedMMaps s),
                       m_loadedTiles := m_loadedTiles s\<rparr>)"
    by (rule counter_inv_update [OF inv e]) (simp_all add: well_formed_entry [OF inv e])
  then show ?thesis
    by simp
qed

lemma unloadMapInstance_inv:
  assumes "counter_inv s" "unloadMapInstance s mapId instanceId = (evs, Return ok s')"
  shows "counter_inv s'"
  using assms
  by (auto simp: unloadMapInstance_def counter_inv_queries split: option.splits)

lemma GetNavMeshQuery_inv:
  assumes "counter_inv s" "GetNavMeshQuery w s mapId instanceId = (evs, Return q s')"
  shows "counter_inv s'"
  using assms
  by (auto simp: GetNavMeshQuery_def op_defs counter_inv_queries split: option.splits if_splits)



lemma GetModelNavMeshQuery_frame:
  assumes "Return q s' = snd (GetModelNavMeshQuery w threadId s displayId)"
  shows "m_loadedMMaps s' = m_loadedMMaps s \<and> m_loadedTiles s' = m_loadedTiles s"
  using assms
  by (simp add: GetModelNavMeshQuery_def snd_MANGOS_ASSERT if_distrib [of snd]
        split: option.splits if_splits)

lemma loadGameObject_frame:
  assumes "Return ok s' = snd (loadGameObject w s displayId)"
  shows "m_loadedMMaps s' = m_loadedMMaps s \<and> m_loadedTiles s' = m_loadedTiles s"
  using assms
  by (simp add: loadGameObject_def snd_MANGOS_ASSERT if_distrib [of snd] split: if_splits)

lemma GetModelNavMeshQuery_inv:
  assumes "counter_inv s" "GetModelNavMeshQuery w threadId s displayId = (evs, Return q s')"
  shows "counter_inv s'"
proof -
  from assms(2) have "Return q s' = snd (GetModelNavMeshQuery w threadId s displayId)"
    by simp
  from GetModelNavMeshQuery_frame [OF this] assms(1) counter_inv_same [of s' s] show ?thesis
    by simp
qed

lemma loadGameObject_inv:
  assumes "counter_inv s" "loadGameObject w s displayId = (evs, Return ok s')"
  shows "counter_inv s'"
proof -
  from assms(2) have "Return ok s' = snd (loadGameObject w s displayId)"
    by simp
  from loadGameObject_frame [OF this] assms(1) counter_inv_same [of s' s] show ?thesis
    by simp
qed

lemma loadAllGameObjectModels_inv:
  assumes "counter_inv s" "loadAllGameObjectModels ws s displayIds = (evs, Return u s')"
  shows "counter_inv s'"
  using assms
proof (induction displayIds arbitrary: ws s evs)
  case Nil
  then show ?case by simp
next
  case (Cons displayId displayIds)
  obtain evs1 r1 where one: "loadGameObject (ws 0) s displayId = (evs1, r1)"
    by (cases "loadGameObject (ws 0) s displayId")
  from Cons.prems(2) have step:
    "(case loadGameObject (ws 0) s displayId of
        (evs, Halt) \<Rightarrow> (evs, Halt)
      | (evs, Return ok s1) \<Rightarrow> calls evs (loadAllGameObjectModels (\<lambda>i. ws (Suc i)) s1 displayIds))
     = (evs, Return u s')"
    by (simp only: loadAllGameObjectModels.simps)
  show ?case
  proof (cases r1)
    case Halt
    with one step show ?thesis
      by simp
  next
    case (Return ok s1)
    with one step
    have "calls evs1 (loadAllGameObjectModels (\<lambda>i. ws (Suc i)) s1 displayIds) = (evs, Return u s')"
      by simp
    then have "snd (loadAllGameObjectModels (\<lambda>i. ws (Suc i)) s1 displayIds) = Return u s'"
      by (simp add: calls_def)
    then have rest: "loadAllGameObjectModels (\<lambda>i. ws (Suc i)) s1 displayIds
        = (fst (loadAllGameObjectModels (\<lambda>i. ws (Suc i)) s1 displayIds), Return u s')"
      by (simp add: prod_eq_iff)
    from one Return have "loadGameObject (ws 0) s displayId = (evs1, Return ok s1)"
      by simp
    from loadGameObject_inv [OF Cons.prems(1) this] rest show ?thesis
      by (rule Cons.IH)
  qed
qed

lemma ChangeTile_inv:
  assumes "counter_inv s"
    and "ChangeTile w s mapId instanceId tileX tileY tileNumber = (evs, Return u s')"
  shows "counter_inv s'"
proof -
  from assms(2) obtain evs1 unloaded s1 evs2 loaded where
    "unloadMap w s mapId instanceId tileX tileY = (evs1, Return unloaded s1)"
    "loadMap w s1 mapId instanceId tileX tileY tileNumber = (evs2, Return loaded s')"
    by (auto simp: ChangeTile_def split: prod.splits result.splits)
  with assms(1) show ?thesis
    by (blast intro: loadMap_inv unloadMap_inv)
qed

lemma manager_after_Some:
  "manager_after r = Some s' \<Longrightarrow> \<exists>evs v. r = (evs, Return v s')"
  by (cases r rule: manager_after.cases) auto

lemma perform_inv:
  assumes inv: "counter_inv s"
    and engine: "engine_removes (ws 0)"
    and call: "perform ws c s = Some s'"
  shows "counter_inv s'"
proof (cases c)
  case (Call_loadMapData mapId instanceId)
  with call have "manager_after (loadMapData (ws 0) s mapId instanceId) = Some s'"
    by simp
  from manager_after_Some [OF this] obtain evs v where
    "loadMapData (ws 0) s mapId instanceId = (evs, Return v s')"
    by blast
  then show ?thesis by (rule loadMapData_inv [OF inv])
next
  case (Call_loadMap mapId instanceId x y number)
  with call have "manager_after (loadMap (ws 0) s mapId instanceId x y number) = Some s'"
    by simp
  from manager_after_Some [OF this] obtain evs v where
    "loadMap (ws 0) s mapId instanceId x y number = (evs, Return v s')"
    by blast
  then show ?thesis by (rule loadMap_inv [OF inv])
next
  case (Call_loadGameObject displayId)
  with call have "manager_after (loadGameObject (ws 0) s displayId) = Some s'"
    by simp
  from manager_after_Some [OF this] obtain evs v where
    "loadGameObject (ws 0) s displayId = (evs, Return v s')"
    by blast
  then show ?thesis by (rule loadGameObject_inv [OF inv])
next
  case (Call_loadAllGameObjectModels displayIds)
  with call have "manager_after (loadAllGameObjectModels ws s displayIds) = Some s'"
    by simp
  from manager_after_Some [OF this] obtain evs v where
    "loadAllGameObjectModels ws s displayIds = (evs, Return v s')"
    by blast
  then show ?thesis by (rule loadAllGameObjectModels_inv [OF inv])
next
  case (Call_unloadMap mapId instanceId x y)
  with call have "manager_after (unloadMap (ws 0) s mapId instanceId x y) = Some s'"
    by simp
  from manager_after_Some [OF this] obtain evs v where
    "unloadMap (ws 0) s mapId instanceId x y = (evs, Return v s')"
    by blast
  then show ?thesis by (rule unloadMap_inv [OF inv])
next
  case (Call_unloadMap_mapId mapId)
  with call have "manager_after (unloadMap_mapId (ws 0) s mapId) = Some s'"
    by simp
  from manager_after_Some [OF this] obtain evs v where
    "unloadMap_mapId (ws 0) s mapId = (evs, Return v s')"
    by blast
  then show ?thesis by (rule unloadMap_mapId_inv [OF inv engine])
next
  case (Call_unloadMapInstance mapId instanceId)
  with call have "manager_after (unloadMapInstance s mapId instanceId) = Some s'"
    by simp
  from manager_after_Some [OF this] obtain evs v where
    "unloadMapInstance s mapId instanceId = (evs, Return v s')"
    by blast
  then show ?thesis by (rule unloadMapInstance_inv [OF inv])
next
  case (Call_ChangeTile mapId instanceId tileX tileY tileNumber)
  with call have "manager_after (ChangeTile (ws 0) s mapId instanceId tileX tileY tileNumber) = Some s'"
    by simp
  from manager_after_Some [OF this] obtain evs v where
    "ChangeTile (ws 0) s mapId instanceId tileX tileY tileNumber = (evs, Return v s')"
    by blast
  then show ?thesis by (rule ChangeTile_inv [OF inv])
next
  case (Call_GetNavMeshQuery mapId instanceId)
  with call have "manager_after (GetNavMeshQuery (ws 0) s mapId instanceId) = Some s'"
    by simp
  from manager_after_Some [OF this] obtain evs v where
    "GetNavMeshQuery (ws 0) s mapId instanceId = (evs, Return v s')"
    by blast
  then show ?thesis by (rule GetNavMeshQuery_inv [OF inv])
next
  case (Call_GetModelNavMeshQuery threadId displayId)
  with call have "manager_after (GetModelNavMeshQuery (ws 0) threadId s displayId) = Some s'"
    by simp
  from manager_after_Some [OF this] obtain evs v where
    "GetModelNavMeshQuery (ws 0) threadId s displayId = (evs, Return v s')"
    by blast
  then show ?thesis by (rule GetModelNavMeshQuery_inv [OF inv])
qed

lemma run_inv:
  assumes "counter_inv s" "engines_remove cs" "run cs s = Some s'"
  shows "counter_inv s'"
  using assms
proof (induction cs arbitrary: s)
  case Nil
  then show ?case by simp
next
  case (Cons c cs)
  obtain ws op where c: "c = (ws, op)"
    by (cases c)
  with Cons.prems(3) obtain s1 where
    one: "perform ws op s = Some s1" and rest: "run cs s1 = Some s'"
    by (auto split: option.splits)
  from Cons.prems(2) c have engine: "engine_removes (ws 0)" and engines: "engines_remove cs"
    by (simp_all add: engines_remove_def)
  from perform_inv [OF Cons.prems(1) engine one] engines rest show ?case
    by (rule Cons.IH)
qed

lemma counter_exact:
  assumes "counter_inv s" "tile_total s < 2 ^ 32"
  shows "unat (m_loadedTiles s) = tile_total s"
  using assms by (simp add: counter_inv_def unat_of_nat)

text \<open>
  Claim C3. Take a manager in which \<^verbatim>\<open>m_loadedTiles\<close> equals the number of tile keys
  over all entries (and no key occurs twice), and run any sequence of calls of the
  operations in worlds whose engine reports success on every tile removal. If the run
  does not halt, the counter again equals the number of tile keys in the manager it
  leaves: as 32-bit numbers always, and as natural numbers whenever fewer than
  \<open>2 ^ 32\<close> tiles are resident. Every prefix of a run is a run, so this holds between
  any two calls.
\<close>

theorem loaded_tile_counter_invariant:
  assumes "counter_inv s" and "engines_remove cs" and "run cs s = Some s'"
  shows "counter_inv s' \<and> (tile_total s' < 2 ^ 32 \<longrightarrow> unat (m_loadedTiles s') = tile_total s')"
  using run_inv [OF assms] by (simp add: counter_exact)


theorem loaded_tile_counter_invariant_witness:
  "counter_inv manager_empty \<and>
   engines_remove [(\<lambda>i. world_ok, Call_loadMap 1 0 30 30 0),
                   (\<lambda>i. world_ok, Call_loadMap 1 0 30 31 0),
                   (\<lambda>i. world_ok, Call_unloadMap 1 0 30 31)] \<and>
   run [(\<lambda>i. world_ok, Call_loadMap 1 0 30 30 0),
        (\<lambda>i. world_ok, Call_loadMap 1 0 30 31 0),
        (\<lambda>i. world_ok, Call_unloadMap 1 0 30 31)] manager_empty = Some manager_tile \<and>
   counter_inv manager_tile \<and>
   tile_total manager_tile = 1 \<and>
   unat (m_loadedTiles manager_tile) = tile_total manager_tile"
proof -
  have a: "counter_inv manager_empty"
    by (simp add: counter_inv_def well_formed_def tile_total_def manager_empty_def)
  have b: "engines_remove [(\<lambda>i. world_ok, Call_loadMap 1 0 30 30 0),
                   (\<lambda>i. world_ok, Call_loadMap 1 0 30 31 0),
                   (\<lambda>i. world_ok, Call_unloadMap 1 0 30 31)]"
    by (simp add: engines_remove_def engine_removes_def world_ok_def)
  have c: "run [(\<lambda>i. world_ok, Call_loadMap 1 0 30 30 0),
        (\<lambda>i. world_ok, Call_loadMap 1 0 30 31 0),
        (\<lambda>i. world_ok, Call_unloadMap 1 0 30 31)] manager_empty = Some manager_tile"
    by (simp add: loadMap_def loadMapData_def loadMap_tile_def unloadMap_def op_defs scenario_defs)
  have d: "tile_total manager_tile = 1"
    by (simp add: tile_total_def manager_tile_def)
  from loaded_tile_counter_invariant [OF a b c] a b c d show ?thesis
    by simp
qed

end
